theory Spec2Isabelle
  imports Main
begin

section \<open>The scp helper: data model\<close>

text \<open>
  The development embeds the Go package \<^verbatim>\<open>scp\<close> (files \<^verbatim>\<open>scp.go\<close> and \<^verbatim>\<open>helper.go\<close>).
  Go strings and byte slices are \<^typ>\<open>string\<close> (lists of 8-bit characters). A Go
  \<^verbatim>\<open>error\<close> interface value is an \<^typ>\<open>'a option\<close> over the datatype below:
  \<open>None\<close> is \<^verbatim>\<open>nil\<close>. \<open>ErrTimes\<close> is the struct of the same name: its first
  field is \<^verbatim>\<open>err\<close> (an error interface, so it may be nil), its second \<^verbatim>\<open>times\<close>.
\<close>

datatype error = io_EOF | Err string | ErrTimes "error option" int

text \<open>
  Go's \<^verbatim>\<open>int\<close>, \<^verbatim>\<open>int64\<close> and \<^verbatim>\<open>time.Duration\<close> are 64-bit two's complement
  integers (on the 64-bit platforms); they are modelled as \<^typ>\<open>int\<close> with the
  wrap-around of every arithmetic operation written out.
\<close>

definition wrap64 :: "int \<Rightarrow> int" where
  "wrap64 x = (x + 2 ^ 63) mod 2 ^ 64 - 2 ^ 63"

text \<open>\<^verbatim>\<open>time.Second\<close> and \<^verbatim>\<open>time.Minute\<close>, in nanoseconds.\<close>

definition Second :: int where
  "Second = 1000000000"

definition Minute :: int where
  "Minute = 60 * Second"

text \<open>\<^verbatim>\<open>os.ModePerm\<close> is \<^verbatim>\<open>0777\<close>.\<close>

definition ModePerm :: nat where
  "ModePerm = 511"

subsection \<open>Formatting verbs of \<^verbatim>\<open>fmt\<close>\<close>

text \<open>
  The digit table of \<^verbatim>\<open>strconv\<close>, indexed by the value of a digit; the bases in use
  are 8 and 10, so that the index is below 36.
\<close>

definition digit_char :: "nat \<Rightarrow> char" where
  "digit_char d =
     (if d < 36 then ''0123456789abcdefghijklmnopqrstuvwxyz'' ! d else CHR ''?'')"

text \<open>The digits of a natural number in base \<open>b\<close>, most significant first.\<close>

function digits :: "nat \<Rightarrow> nat \<Rightarrow> string" where
  "digits b n =
     (if b < 2 \<or> n < b then [digit_char n]
      else digits b (n div b) @ [digit_char (n mod b)])"
  by pat_completeness auto
termination
  by (relation "measure (\<lambda>(b, n). n)") auto

declare digits.simps [simp del]

text \<open>The verb \<^verbatim>\<open>%d\<close> on a signed integer.\<close>

definition fmt_d :: "int \<Rightarrow> string" where
  "fmt_d i = (if i < 0 then CHR ''-'' # digits 10 (nat (- i)) else digits 10 (nat i))"

text \<open>
  The verb \<^verbatim>\<open>%#o\<close> on an unsigned integer: the octal digits, with a leading \<^verbatim>\<open>0\<close>
  unless the first digit already is one (the value zero prints as \<^verbatim>\<open>0\<close>).
\<close>

definition fmt_sharp_o :: "nat \<Rightarrow> string" where
  "fmt_sharp_o m = (let ds = digits 8 m in if hd ds = CHR ''0'' then ds else CHR ''0'' # ds)"

subsection \<open>Readers\<close>

text \<open>
  An \<^verbatim>\<open>io.Reader\<close> is modelled by the finite sequence of results its next calls of
  \<^verbatim>\<open>Read\<close> will return: the bytes read, and the error returned with them. Once the
  sequence is used up, \<^verbatim>\<open>Read\<close> reports \<^verbatim>\<open>(0, io.EOF)\<close>.
\<close>

type_synonym reader = "(string \<times> error option) list"

fun Read :: "reader \<Rightarrow> (string \<times> error option) \<times> reader" where
  "Read [] = (([], Some io_EOF), [])"
| "Read (x # r) = (x, r)"

text \<open>
  \<^verbatim>\<open>io.Copy(w, contents)\<close>: everything read is written, up to and including the
  bytes that come with the first error (\<^verbatim>\<open>io.EOF\<close> or not). The result is the bytes
  written and the reader as it is left.
\<close>

fun io_Copy :: "reader \<Rightarrow> string \<times> reader" where
  "io_Copy [] = ([], [])"
| "io_Copy ((b, None) # r) = (case io_Copy r of (bs, r1) \<Rightarrow> (b @ bs, r1))"
| "io_Copy ((b, Some e) # r) = (b, r)"

text \<open>A \<^verbatim>\<open>bytes.Buffer\<close> holding \<open>cb\<close>, seen as a reader.\<close>

definition Buffer_reader :: "string \<Rightarrow> reader" where
  "Buffer_reader cb = (if cb = [] then [] else [(cb, None)])"

subsection \<open>The transport, the file system and the gzip codec\<close>

datatype client = Client nat

datatype session = Session nat

datatype signer = Signer string

datatype AuthMethod = PublicKeys signer | Password string

record ClientConfig =
  Auth :: "AuthMethod list"
  User :: string
  HostKeyCallback :: "string \<Rightarrow> string \<Rightarrow> string \<Rightarrow> error option"

datatype os_File = File nat reader

fun file_reader :: "os_File \<Rightarrow> reader" where
  "file_reader (File fd r) = r"

record FileInfo =
  Size :: int
  Mode :: nat

text \<open>
  What the package calls and does not define is a parameter: the ssh library, the
  operating system, \<^verbatim>\<open>filepath.Dir\<close> and \<^verbatim>\<open>compress/gzip\<close>. The type \<open>'w\<close> is the
  state of the outside world, which every effect takes and returns; \<open>'g\<close> is the state of
  a gzip writer, whose operations return the bytes they append to the underlying buffer.
  \<open>session_Run env sess cmd stdin\<close> runs the remote command \<open>cmd\<close> on the session while
  the bytes \<open>stdin\<close> are written to the session's input pipe.
\<close>

record ('w, 'g) env =
  ReadFile :: "string \<Rightarrow> 'w \<Rightarrow> (error + string) \<times> 'w"
  ParsePrivateKey :: "string \<Rightarrow> error + signer"
  ssh_Dial :: "string \<Rightarrow> string \<Rightarrow> ClientConfig \<Rightarrow> 'w \<Rightarrow> (error + client) \<times> 'w"
  NewSession :: "client \<Rightarrow> 'w \<Rightarrow> (error + session) \<times> 'w"
  client_Close :: "client \<Rightarrow> 'w \<Rightarrow> 'w"
  session_Close :: "session \<Rightarrow> 'w \<Rightarrow> 'w"
  session_Run :: "session \<Rightarrow> string \<Rightarrow> string \<Rightarrow> 'w \<Rightarrow> error option \<times> 'w"
  os_Open :: "string \<Rightarrow> 'w \<Rightarrow> (error + os_File) \<times> 'w"
  file_Stat :: "os_File \<Rightarrow> 'w \<Rightarrow> (error + FileInfo) \<times> 'w"
  file_Close :: "os_File \<Rightarrow> 'w \<Rightarrow> 'w"
  filepath_Dir :: "string \<Rightarrow> string"
  gzip_NewWriter :: "'g"
  gzip_Write :: "'g \<Rightarrow> string \<Rightarrow> error + ('g \<times> string)"
  gzip_Flush :: "'g \<Rightarrow> 'g \<times> string"

text \<open>\<^verbatim>\<open>filepath.Base\<close> (and \<^verbatim>\<open>path.Base\<close>), with \<^verbatim>\<open>/\<close> as the separator.\<close>

definition filepath_Base :: "string \<Rightarrow> string" where
  "filepath_Base path =
     (if path = [] then ''.''
      else let p = rev (dropWhile (\<lambda>c. c = CHR ''/'') (rev path));
               p1 = rev (takeWhile (\<lambda>c. c \<noteq> CHR ''/'') (rev p))
           in if p1 = [] then ''/'' else p1)"

section \<open>\<^verbatim>\<open>scp.go\<close>: the protocol encoder\<close>

text \<open>
  The goroutine of \<^verbatim>\<open>copy\<close>: the bytes it writes to the session's input pipe, and
  the reader \<open>contents\<close> as it leaves it. The goroutine is taken to obtain the pipe and
  to run to its end.
\<close>

definition copy_writer :: "int \<Rightarrow> nat \<Rightarrow> string \<Rightarrow> reader \<Rightarrow> string \<times> reader" where
  "copy_writer sz mode fileName contents =
     (case io_Copy contents of
        (body, contents1) \<Rightarrow>
          (''C'' @ fmt_sharp_o mode @ '' '' @ fmt_d sz @ '' '' @ fileName @ [CHR 0x0A]
             @ body @ [CHR 0x00],
           contents1))"

definition copy_cmd :: "string \<Rightarrow> string \<Rightarrow> string" where
  "copy_cmd flags destination = ''scp '' @ flags @ '' -t '' @ destination"

definition copy ::
  "('w, 'g) env \<Rightarrow> int \<Rightarrow> nat \<Rightarrow> string \<Rightarrow> reader \<Rightarrow> string \<Rightarrow> session \<Rightarrow> string \<Rightarrow> 'w
     \<Rightarrow> error option \<times> reader \<times> 'w" where
  "copy env sz mode fileName contents destination sess flags w =
     (case copy_writer sz mode fileName contents of
        (stdin, contents1) \<Rightarrow>
          (case session_Run env sess (copy_cmd flags destination) stdin w of
             (err, w1) \<Rightarrow> (err, contents1, session_Close env sess w1)))"

text \<open>The exported \<^verbatim>\<open>Copy\<close> and \<^verbatim>\<open>CopyPath\<close> of \<^verbatim>\<open>scp.go\<close>.\<close>

definition scp_Copy ::
  "('w, 'g) env \<Rightarrow> int \<Rightarrow> nat \<Rightarrow> string \<Rightarrow> reader \<Rightarrow> string \<Rightarrow> session \<Rightarrow> 'w
     \<Rightarrow> error option \<times> reader \<times> 'w" where
  "scp_Copy env sz mode fileName contents destination sess w =
     copy env sz mode fileName contents destination sess [] w"

definition scp_CopyPath ::
  "('w, 'g) env \<Rightarrow> string \<Rightarrow> string \<Rightarrow> session \<Rightarrow> 'w \<Rightarrow> error option \<times> 'w" where
  "scp_CopyPath env filePath destinationPath sess w =
     (case os_Open env filePath w of
        (Inl e, w1) \<Rightarrow> (Some e, w1)
      | (Inr f, w1) \<Rightarrow>
          (case file_Stat env f w1 of
             (Inl e, w2) \<Rightarrow> (Some e, file_Close env f w2)
           | (Inr s, w2) \<Rightarrow>
               (case scp_Copy env (Size s) (Mode s mod 512) (filepath_Base filePath)
                       (file_reader f) destinationPath sess w2 of
                  (err, r1, w3) \<Rightarrow> (err, file_Close env f w3))))"

section \<open>\<^verbatim>\<open>helper.go\<close>\<close>

subsection \<open>The dialer\<close>

record Dialer =
  SSHUser :: string
  SSHFile :: string
  SSHPass :: string
  SSHAddr :: string

text \<open>
  The function literal that \<^verbatim>\<open>Dial\<close> installs as \<^verbatim>\<open>HostKeyCallback\<close>, and the
  \<^verbatim>\<open>ssh.ClientConfig\<close> literal it passes to \<^verbatim>\<open>ssh.Dial\<close>. A host name, a remote
  address and a public key are strings here.
\<close>

definition Dial_HostKeyCallback :: "string \<Rightarrow> string \<Rightarrow> string \<Rightarrow> error option" where
  "Dial_HostKeyCallback hostname remote key = None"

definition Dial_config :: "Dialer \<Rightarrow> AuthMethod \<Rightarrow> ClientConfig" where
  "Dial_config d authm =
     \<lparr>Auth = [authm], User = SSHUser d, HostKeyCallback = Dial_HostKeyCallback\<rparr>"

definition Dial :: "('w, 'g) env \<Rightarrow> Dialer \<Rightarrow> 'w \<Rightarrow> (error + client) \<times> 'w" where
  "Dial env d w =
     (if SSHFile d \<noteq> [] then
        (case ReadFile env (SSHFile d) w of
           (Inl e, w1) \<Rightarrow> (Inl e, w1)
         | (Inr b, w1) \<Rightarrow>
             (case ParsePrivateKey env b of
                Inl e \<Rightarrow> (Inl e, w1)
              | Inr key \<Rightarrow> ssh_Dial env ''tcp'' (SSHAddr d) (Dial_config d (PublicKeys key)) w1))
      else ssh_Dial env ''tcp'' (SSHAddr d) (Dial_config d (Password (SSHPass d))) w)"

subsection \<open>The helper and its cached connection\<close>

text \<open>
  The struct \<^verbatim>\<open>scpHelperDelegate\<close>. The field \<open>client\<close> is a pointer: \<open>None\<close> is
  \<^verbatim>\<open>nil\<close>. The lock is held for the whole of \<^verbatim>\<open>newSession\<close>, which is therefore one
  atomic step here; the dialer pointer is taken to be non-nil.
\<close>

record scpHelperDelegate =
  dialer :: Dialer
  client :: "client option"
  flags :: string
  gzip :: bool

definition NewHelper :: "Dialer \<Rightarrow> scpHelperDelegate" where
  "NewHelper d = \<lparr>dialer = d, client = None, flags = [], gzip = False\<rparr>"

definition newSession ::
  "('w, 'g) env \<Rightarrow> scpHelperDelegate \<Rightarrow> 'w \<Rightarrow> (error + session) \<times> scpHelperDelegate \<times> 'w" where
  "newSession env s w =
     (case (case client s of
              None \<Rightarrow> Dial env (dialer s) w
            | Some c \<Rightarrow> (Inr c, w)) of
        (Inl e, w1) \<Rightarrow> (Inl e, s\<lparr>client := None\<rparr>, w1)
      | (Inr c, w1) \<Rightarrow>
          (case NewSession env c w1 of
             (Inr sess, w2) \<Rightarrow> (Inr sess, s\<lparr>client := Some c\<rparr>, w2)
           | (Inl e1, w2) \<Rightarrow>
               (case Dial env (dialer s) (client_Close env c w2) of
                  (Inl e, w3) \<Rightarrow> (Inl e, s\<lparr>client := None\<rparr>, w3)
                | (Inr c2, w3) \<Rightarrow>
                    (case NewSession env c2 w3 of
                       (res, w4) \<Rightarrow> (res, s\<lparr>client := Some c2\<rparr>, w4)))))"

subsection \<open>One transfer attempt\<close>

text \<open>
  The loop of \<^verbatim>\<open>Copy\<close> that feeds the reader to the gzip writer, \<open>cb\<close> being the
  bytes in the buffer under the writer. A \<^verbatim>\<open>Read\<close> that returns \<^verbatim>\<open>io.EOF\<close> ends the
  loop, whatever it has read; another error ends \<^verbatim>\<open>Copy\<close>.
\<close>

fun gzip_loop ::
  "('w, 'g) env \<Rightarrow> reader \<Rightarrow> 'g \<Rightarrow> string \<Rightarrow> (error + ('g \<times> string)) \<times> reader" where
  "gzip_loop env [] g cb = (Inr (g, cb), [])"
| "gzip_loop env ((b, err) # r) g cb =
     (if err = Some io_EOF then (Inr (g, cb), r)
      else case err of
             Some e \<Rightarrow> (Inl e, r)
           | None \<Rightarrow>
               (case gzip_Write env g b of
                  Inl e \<Rightarrow> (Inl e, r)
                | Inr (g1, out) \<Rightarrow> gzip_loop env r g1 (cb @ out)))"

text \<open>
  The part of \<^verbatim>\<open>Copy\<close> between the acquisition of the session and the call of
  \<^verbatim>\<open>copy\<close>: the arguments \<open>(size, name, contents)\<close> it prepares, and the caller's
  reader as it is left.
\<close>

definition Copy_prepare ::
  "('w, 'g) env \<Rightarrow> bool \<Rightarrow> reader \<Rightarrow> int \<Rightarrow> string
     \<Rightarrow> (error + (int \<times> string \<times> reader)) \<times> reader" where
  "Copy_prepare env gz r sz dstfile =
     (let name = filepath_Base dstfile in
      if gz then
        (case gzip_loop env r (gzip_NewWriter env) [] of
           (Inl e, r1) \<Rightarrow> (Inl e, r1)
         | (Inr (g, cb), r1) \<Rightarrow>
             (case gzip_Flush env g of
                (g1, out) \<Rightarrow>
                  (Inr (int (length (cb @ out)), name @ ''.gz'', Buffer_reader (cb @ out)), r1)))
      else (Inr (sz, name, r), r))"

text \<open>
  \<^verbatim>\<open>Copy\<close>. Without gzip the reader handed to \<^verbatim>\<open>copy\<close> is the caller's, so what
  \<^verbatim>\<open>copy\<close> consumes is consumed for the caller too. The session is closed by
  \<^verbatim>\<open>copy\<close> and again by the deferred call of \<^verbatim>\<open>Copy\<close>.
\<close>

definition Copy ::
  "('w, 'g) env \<Rightarrow> scpHelperDelegate \<Rightarrow> reader \<Rightarrow> int \<Rightarrow> string \<Rightarrow> 'w
     \<Rightarrow> error option \<times> scpHelperDelegate \<times> reader \<times> 'w" where
  "Copy env s r sz dstfile w =
     (case newSession env s w of
        (Inl e, s1, w1) \<Rightarrow> (Some e, s1, r, w1)
      | (Inr sess, s1, w1) \<Rightarrow>
          (case Copy_prepare env (gzip s1) r sz dstfile of
             (Inl e, r1) \<Rightarrow> (Some e, s1, r1, session_Close env sess w1)
           | (Inr (sz1, name, contents), r1) \<Rightarrow>
               (case copy env sz1 ModePerm name contents (filepath_Dir env dstfile) sess
                       (flags s1) w1 of
                  (err, contents1, w2) \<Rightarrow>
                    (err, s1, if gzip s1 then r1 else contents1, session_Close env sess w2))))"

subsection \<open>The retry loops\<close>

text \<open>
  What a retry loop does is recorded as a trace: the calls of \<^verbatim>\<open>time.Sleep\<close>, with
  their argument in nanoseconds, and the calls of \<^verbatim>\<open>Copy\<close>.
\<close>

datatype event = Sleep int | Attempt

text \<open>
  A \<^verbatim>\<open>for { ... }\<close> loop whose body either goes round again with a new
  configuration (\<open>Inl\<close>) or returns (\<open>Inr\<close>). The loop need not terminate, so it
  returns an option: \<open>None\<close> is a run that goes on forever. \<open>steps body n c\<close> is the run
  cut after \<open>n\<close> rounds, which exists for diverging runs as well.
\<close>

partial_function (option) for_loop :: "('c \<Rightarrow> 'c + 'r) \<Rightarrow> 'c \<Rightarrow> 'r option" where
  "for_loop body c = (case body c of Inl c1 \<Rightarrow> for_loop body c1 | Inr res \<Rightarrow> Some res)"

fun steps :: "('c \<Rightarrow> 'c + 'r) \<Rightarrow> nat \<Rightarrow> 'c \<Rightarrow> 'c + 'r" where
  "steps body 0 c = Inl c"
| "steps body (Suc n) c = (case body c of Inl c1 \<Rightarrow> steps body n c1 | Inr res \<Rightarrow> Inr res)"

text \<open>
  The loop bodies are written over any attempt function \<open>attempt\<close>, which takes and
  returns the state \<open>st\<close> that the attempts share. A configuration is the counter
  \<^verbatim>\<open>retryTimes\<close>, the trace so far and that state.
\<close>

definition MustCopy_sleep :: "int \<Rightarrow> event list" where
  "MustCopy_sleep retryTimes =
     (if retryTimes > 10 then [Sleep Minute]
      else if retryTimes > 0 then [Sleep (wrap64 (retryTimes * Second))]
      else [])"

definition MustCopy_body ::
  "('st \<Rightarrow> error option \<times> 'st) \<Rightarrow> int \<times> event list \<times> 'st
     \<Rightarrow> (int \<times> event list \<times> 'st) + (event list \<times> 'st)" where
  "MustCopy_body attempt c =
     (case c of
        (retryTimes, tr, st) \<Rightarrow>
          (case attempt st of
             (None, st1) \<Rightarrow> Inr (tr @ MustCopy_sleep retryTimes @ [Attempt], st1)
           | (Some e, st1) \<Rightarrow>
               Inl (wrap64 (retryTimes + 1), tr @ MustCopy_sleep retryTimes @ [Attempt], st1)))"

definition TryCopy_sleep :: "int \<Rightarrow> event list" where
  "TryCopy_sleep retryTimes =
     (if retryTimes > 0 then [Sleep (wrap64 (retryTimes * Second))] else [])"

text \<open>
  In \<^verbatim>\<open>TryCopy\<close> the variable \<^verbatim>\<open>err\<close> declared before the loop is the one stored
  in \<^verbatim>\<open>ErrTimes\<close>; the error of an attempt is bound to a new variable of the same name
  by \<^verbatim>\<open>:=\<close> in the \<^verbatim>\<open>if\<close> statement, so the outer \<open>err\<close> is never assigned and
  is a parameter of the body, not a part of the configuration.
\<close>

definition TryCopy_body ::
  "('st \<Rightarrow> error option \<times> 'st) \<Rightarrow> int \<Rightarrow> error option \<Rightarrow> int \<times> event list \<times> 'st
     \<Rightarrow> (int \<times> event list \<times> 'st) + (error option \<times> event list \<times> 'st)" where
  "TryCopy_body attempt trys err c =
     (case c of
        (retryTimes, tr, st) \<Rightarrow>
          if retryTimes > trys then Inr (Some (ErrTimes err retryTimes), tr, st)
          else (case attempt st of
                  (None, st1) \<Rightarrow> Inr (None, tr @ TryCopy_sleep retryTimes @ [Attempt], st1)
                | (Some e, st1) \<Rightarrow>
                    Inl (wrap64 (retryTimes + 1), tr @ TryCopy_sleep retryTimes @ [Attempt],
                         st1)))"

text \<open>The attempt of the helper: \<^verbatim>\<open>s.Copy(r, size, dstfile)\<close> on the shared state.\<close>

definition Copy_attempt ::
  "('w, 'g) env \<Rightarrow> int \<Rightarrow> string \<Rightarrow> scpHelperDelegate \<times> reader \<times> 'w
     \<Rightarrow> error option \<times> scpHelperDelegate \<times> reader \<times> 'w" where
  "Copy_attempt env sz dstfile st = (case st of (s, r, w) \<Rightarrow> Copy env s r sz dstfile w)"

definition MustCopy ::
  "('w, 'g) env \<Rightarrow> scpHelperDelegate \<Rightarrow> reader \<Rightarrow> int \<Rightarrow> string \<Rightarrow> 'w
     \<Rightarrow> (event list \<times> scpHelperDelegate \<times> reader \<times> 'w) option" where
  "MustCopy env s r sz dstfile w =
     for_loop (MustCopy_body (Copy_attempt env sz dstfile)) (0, [], (s, r, w))"

definition TryCopy ::
  "('w, 'g) env \<Rightarrow> scpHelperDelegate \<Rightarrow> reader \<Rightarrow> int \<Rightarrow> string \<Rightarrow> int \<Rightarrow> 'w
     \<Rightarrow> (error option \<times> event list \<times> scpHelperDelegate \<times> reader \<times> 'w) option" where
  "TryCopy env s r sz dstfile trys w =
     for_loop (TryCopy_body (Copy_attempt env sz dstfile) trys None) (0, [], (s, r, w))"

subsection \<open>Copying a file by its path\<close>

definition openFile ::
  "('w, 'g) env \<Rightarrow> string \<Rightarrow> 'w \<Rightarrow> (error + (os_File \<times> int)) \<times> 'w" where
  "openFile env filename w =
     (case os_Open env filename w of
        (Inl e, w1) \<Rightarrow> (Inl e, w1)
      | (Inr fd, w1) \<Rightarrow>
          (case file_Stat env fd w1 of
             (Inl e, w2) \<Rightarrow> (Inl e, w2)
           | (Inr stat, w2) \<Rightarrow> (Inr (fd, Size stat), w2)))"

definition CopyPath ::
  "('w, 'g) env \<Rightarrow> scpHelperDelegate \<Rightarrow> string \<Rightarrow> string \<Rightarrow> 'w
     \<Rightarrow> error option \<times> scpHelperDelegate \<times> 'w" where
  "CopyPath env s srcfile dstfile w =
     (case openFile env srcfile w of
        (Inr (fd, sz), w1) \<Rightarrow>
          (case Copy env s (file_reader fd) sz dstfile w1 of
             (err, s1, r1, w2) \<Rightarrow> (err, s1, w2))
      | (Inl e, w1) \<Rightarrow> (Some e, s, w1))"

text \<open>
  A function that can panic returns a \<open>result\<close>: \<open>Panic e\<close> is \<^verbatim>\<open>panic(e)\<close>,
  \<open>Return x\<close> a normal return.
\<close>

datatype 'a result = Panic error | Return 'a

definition MustCopyPath ::
  "('w, 'g) env \<Rightarrow> scpHelperDelegate \<Rightarrow> string \<Rightarrow> string \<Rightarrow> 'w
     \<Rightarrow> (event list result \<times> scpHelperDelegate \<times> 'w) option" where
  "MustCopyPath env s srcfile dstfile w =
     (case openFile env srcfile w of
        (Inl e, w1) \<Rightarrow> Some (Panic e, s, w1)
      | (Inr (fd, sz), w1) \<Rightarrow>
          (case MustCopy env s (file_reader fd) sz dstfile w1 of
             None \<Rightarrow> None
           | Some (tr, s1, r1, w2) \<Rightarrow> Some (Return tr, s1, w2)))"

definition TryCopyPath ::
  "('w, 'g) env \<Rightarrow> scpHelperDelegate \<Rightarrow> string \<Rightarrow> string \<Rightarrow> int \<Rightarrow> 'w
     \<Rightarrow> (error option \<times> event list \<times> scpHelperDelegate \<times> 'w) option" where
  "TryCopyPath env s srcfile dstfile trys w =
     (case openFile env srcfile w of
        (Inl e, w1) \<Rightarrow> Some (Some e, [], s, w1)
      | (Inr (fd, sz), w1) \<Rightarrow>
          (case TryCopy env s (file_reader fd) sz dstfile trys w1 of
             None \<Rightarrow> None
           | Some (err, tr, s1, r1, w2) \<Rightarrow> Some (err, tr, s1, w2)))"

subsection \<open>Configuration\<close>

definition SetLimitKB :: "scpHelperDelegate \<Rightarrow> int \<Rightarrow> scpHelperDelegate" where
  "SetLimitKB s kbs = s\<lparr>flags := ''-l '' @ fmt_d (wrap64 (kbs * 8))\<rparr>"

definition SetGzipEnable :: "scpHelperDelegate \<Rightarrow> bool \<Rightarrow> scpHelperDelegate" where
  "SetGzipEnable s enable = s\<lparr>gzip := enable\<rparr>"

section \<open>Observations on runs\<close>

text \<open>
  The state in which attempt number \<open>n + 1\<close> of a retry loop starts: the state left by
  \<open>n\<close> calls of the attempt function.
\<close>

definition state_after :: "('st \<Rightarrow> error option \<times> 'st) \<Rightarrow> nat \<Rightarrow> 'st \<Rightarrow> 'st" where
  "state_after attempt n st = ((\<lambda>x. snd (attempt x)) ^^ n) st"

text \<open>The trace of a run of a retry loop, cut after some rounds or returned.\<close>

fun MustCopy_trace :: "(int \<times> event list \<times> 'st) + (event list \<times> 'st) \<Rightarrow> event list" where
  "MustCopy_trace (Inl (retryTimes, tr, st)) = tr"
| "MustCopy_trace (Inr (tr, st)) = tr"

fun TryCopy_trace ::
  "(int \<times> event list \<times> 'st) + (error option \<times> event list \<times> 'st) \<Rightarrow> event list" where
  "TryCopy_trace (Inl (retryTimes, tr, st)) = tr"
| "TryCopy_trace (Inr (err, tr, st)) = tr"

text \<open>
  The delay before each attempt of a trace: the time slept since the attempt before, in
  nanoseconds. The number of attempts of a trace.
\<close>

fun delays_from :: "int \<Rightarrow> event list \<Rightarrow> int list" where
  "delays_from acc [] = []"
| "delays_from acc (Sleep d # tr) = delays_from (acc + d) tr"
| "delays_from acc (Attempt # tr) = acc # delays_from 0 tr"

definition delays :: "event list \<Rightarrow> int list" where
  "delays tr = delays_from 0 tr"

definition attempts :: "event list \<Rightarrow> nat" where
  "attempts tr = length (filter (\<lambda>ev. ev = Attempt) tr)"

text \<open>
  The backoff schedules of the two loops, as functions of the number \<open>N\<close> of the attempt
  (the first attempt is number 1).
\<close>

definition MustCopy_delay :: "nat \<Rightarrow> int" where
  "MustCopy_delay N = (if N = 1 then 0 else if N \<le> 11 then int (N - 1) * Second else Minute)"

definition TryCopy_delay :: "nat \<Rightarrow> int" where
  "TryCopy_delay N = (if N = 1 then 0 else int (N - 1) * Second)"

subsection \<open>The receiving side of the protocol\<close>

text \<open>
  What the sink reads, following the grammar of the wire format: the letter \<^verbatim>\<open>C\<close>,
  the mode in octal with a leading zero, a space, the size in decimal, a space, the file
  name, a newline; then as many bytes as the size says; then one zero byte, and nothing
  more. The result is the mode, the size, the name and the payload.
\<close>

definition digit_of :: "char \<Rightarrow> nat" where
  "digit_of c = length (takeWhile (\<lambda>x. x \<noteq> c) ''0123456789'')"

definition number :: "nat \<Rightarrow> string \<Rightarrow> bool" where
  "number b ds = (ds \<noteq> [] \<and> list_all (\<lambda>c. digit_of c < b) ds)"

definition number_value :: "nat \<Rightarrow> string \<Rightarrow> nat" where
  "number_value b ds = foldl (\<lambda>a c. b * a + digit_of c) 0 ds"

definition sink_parse :: "string \<Rightarrow> (nat \<times> int \<times> string \<times> string) option" where
  "sink_parse bs =
     (case bs of
        [] \<Rightarrow> None
      | c # r0 \<Rightarrow>
          (case dropWhile (\<lambda>c. c \<noteq> CHR '' '') r0 of
             [] \<Rightarrow> None
           | sp1 # r1 \<Rightarrow>
               (case dropWhile (\<lambda>c. c \<noteq> CHR '' '') r1 of
                  [] \<Rightarrow> None
                | sp2 # r2 \<Rightarrow>
                    (case dropWhile (\<lambda>c. c \<noteq> CHR 0x0A) r2 of
                       [] \<Rightarrow> None
                     | nl # r3 \<Rightarrow>
                         (let m = takeWhile (\<lambda>c. c \<noteq> CHR '' '') r0;
                              n = takeWhile (\<lambda>c. c \<noteq> CHR '' '') r1;
                              name = takeWhile (\<lambda>c. c \<noteq> CHR 0x0A) r2
                          in if c = CHR ''C'' \<and> number 8 m \<and> hd m = CHR ''0'' \<and> number 10 n
                                \<and> length r3 = Suc (number_value 10 n) \<and> last r3 = CHR 0x00
                             then Some (number_value 8 m, int (number_value 10 n), name,
                                        butlast r3)
                             else None)))))"

section \<open>Simulated environments\<close>

text \<open>
  Concrete environments, on which the functions above can be run. The world is the log of
  the calls made so far. \<open>sim dial_ok session_ok\<close> has no key files and no local
  files; dialing succeeds if \<open>dial_ok\<close>, with a client numbered by the length of the log;
  a session can be opened on the clients that satisfy \<open>session_ok\<close>; every remote
  command succeeds; the gzip writer copies its input.
\<close>

datatype call =
    Dialed string
  | ClientClosed client
  | SessionOpened client
  | SessionClosed session
  | Ran session string string

definition sim_Dir :: "string \<Rightarrow> string" where
  "sim_Dir path =
     (let d = rev (drop 1 (dropWhile (\<lambda>c. c \<noteq> CHR ''/'') (rev path)))
      in if d = [] then ''.'' else d)"

definition sim :: "bool \<Rightarrow> (client \<Rightarrow> bool) \<Rightarrow> (call list, unit) env" where
  "sim dial_ok session_ok =
     \<lparr>ReadFile = (\<lambda>name w. (Inl (Err ''no such file''), w)),
      ParsePrivateKey = (\<lambda>b. Inl (Err ''no key found'')),
      ssh_Dial = (\<lambda>network addr config w.
        (if dial_ok then Inr (Client (length w)) else Inl (Err ''connection refused''),
         w @ [Dialed addr])),
      NewSession = (\<lambda>c w.
        (if session_ok c then Inr (Session (length w))
         else (case c of Client n \<Rightarrow> Inl (Err (''no session on client '' @ fmt_d (int n)))),
         w @ [SessionOpened c])),
      client_Close = (\<lambda>c w. w @ [ClientClosed c]),
      session_Close = (\<lambda>sess w. w @ [SessionClosed sess]),
      session_Run = (\<lambda>sess cmd stdin w. (None, w @ [Ran sess cmd stdin])),
      os_Open = (\<lambda>name w. (Inl (Err ''no such file''), w)),
      file_Stat = (\<lambda>f w. (Inl (Err ''bad file descriptor''), w)),
      file_Close = (\<lambda>f w. w),
      filepath_Dir = sim_Dir,
      gzip_NewWriter = (),
      gzip_Write = (\<lambda>g b. Inr (g, b)),
      gzip_Flush = (\<lambda>g. (g, []))\<rparr>"

definition dialer0 :: Dialer where
  "dialer0 = \<lparr>SSHUser = ''user'', SSHFile = [], SSHPass = ''secret'', SSHAddr = ''host:22''\<rparr>"

text \<open>An attempt function that always fails, on a state that holds nothing.\<close>

definition always_down :: "unit \<Rightarrow> error option \<times> unit" where
  "always_down st = (Some (Err ''connection refused''), st)"

text \<open>A helper that holds a cached connection.\<close>

definition helper7 :: scpHelperDelegate where
  "helper7 = \<lparr>dialer = dialer0, client = Some (Client 7), flags = [], gzip = False\<rparr>"

text \<open>An environment in which every file opens, empty, and cannot be examined.\<close>

definition sim_unreadable :: "('w, 'g) env \<Rightarrow> ('w, 'g) env" where
  "sim_unreadable env = env\<lparr>os_Open := (\<lambda>name w. (Inr (File 3 []), w))\<rparr>"

section \<open>The retry loops\<close>

subsection \<open>Loops and their cut runs\<close>

lemma steps_Inr_for_loop: "steps body n c = Inr res \<Longrightarrow> for_loop body c = Some res"
proof (induction n arbitrary: c)
  case 0
  then show ?case by simp
next
  case (Suc n)
  show ?case
  proof (cases "body c")
    case (Inl c1)
    with Suc.prems have "steps body n c1 = Inr res" by simp
    then have "for_loop body c1 = Some res" by (rule Suc.IH)
    with Inl show ?thesis by (subst for_loop.simps) simp
  next
    case (Inr r)
    with Suc.prems have "r = res" by simp
    with Inr show ?thesis by (subst for_loop.simps) simp
  qed
qed

lemma for_loop_Some_steps:
  fixes body :: "'c \<Rightarrow> 'c + 'r"
  assumes "for_loop body c = Some res"
  shows "\<exists>n. steps body n c = Inr res"
proof (rule for_loop.raw_induct [where P = "\<lambda>b c r. \<exists>n. steps b n c = Inr r", OF _ assms])
  fix loop and b :: "'c \<Rightarrow> 'c + 'r" and c r
  assume IH: "\<And>b c r. loop b c = Some r \<Longrightarrow> \<exists>n. steps b n c = Inr r"
    and eq: "(case b c of Inl c1 \<Rightarrow> loop b c1 | Inr res \<Rightarrow> Some res) = Some r"
  show "\<exists>n. steps b n c = Inr r"
  proof (cases "b c")
    case (Inl c1)
    with eq have "loop b c1 = Some r" by simp
    then obtain n where "steps b n c1 = Inr r" using IH by blast
    with Inl have "steps b (Suc n) c = Inr r" by simp
    then show ?thesis by blast
  next
    case (Inr r1)
    with eq have "steps b (Suc 0) c = Inr r" by simp
    then show ?thesis by blast
  qed
qed

lemma for_loop_eq_Some_iff: "for_loop body c = Some res \<longleftrightarrow> (\<exists>n. steps body n c = Inr res)"
  using steps_Inr_for_loop [of body _ c res] for_loop_Some_steps [of body c res] by blast

lemma for_loop_None_iff: "for_loop body c = None \<longleftrightarrow> (\<forall>n. \<exists>c1. steps body n c = Inl c1)"
proof
  assume h: "for_loop body c = None"
  show "\<forall>n. \<exists>c1. steps body n c = Inl c1"
  proof
    fix n
    show "\<exists>c1. steps body n c = Inl c1"
    proof (cases "steps body n c")
      case (Inl a)
      then show ?thesis by blast
    next
      case (Inr res)
      then have "for_loop body c = Some res" by (rule steps_Inr_for_loop)
      with h show ?thesis by simp
    qed
  qed
next
  assume h: "\<forall>n. \<exists>c1. steps body n c = Inl c1"
  show "for_loop body c = None"
  proof (cases "for_loop body c")
    case None
    then show ?thesis .
  next
    case (Some res)
    then obtain n where "steps body n c = Inr res" using for_loop_Some_steps [of body c res] by blast
    with h show ?thesis by (metis sum.distinct(1))
  qed
qed

lemma steps_Suc_right:
  "steps body (Suc n) c = (case steps body n c of Inl c1 \<Rightarrow> body c1 | Inr res \<Rightarrow> Inr res)"
proof (induction n arbitrary: c)
  case 0
  show ?case by (simp split: sum.splits)
next
  case (Suc n)
  show ?case
  proof (cases "body c")
    case (Inl c1)
    have "steps body (Suc (Suc n)) c = steps body (Suc n) c1"
      using Inl by simp
    also have "\<dots> = (case steps body n c1 of Inl c2 \<Rightarrow> body c2 | Inr res \<Rightarrow> Inr res)"
      by (rule Suc.IH)
    also have "steps body n c1 = steps body (Suc n) c"
      using Inl by simp
    finally show ?thesis .
  next
    case (Inr res)
    then show ?thesis by simp
  qed
qed

lemma wrap64_id: "- (2 ^ 63) \<le> x \<Longrightarrow> x < 2 ^ 63 \<Longrightarrow> wrap64 x = x"
  by (simp add: wrap64_def)

lemma delays_from_append_Attempt:
  "delays_from acc (tr @ Attempt # tr2) = delays_from acc (tr @ [Attempt]) @ delays_from 0 tr2"
proof (induction tr arbitrary: acc)
  case Nil
  show ?case by simp
next
  case (Cons ev tr)
  then show ?case by (cases ev) simp_all
qed

lemma delays_MustCopy_sleep:
  assumes "n < 2 ^ 63"
  shows "delays_from 0 (MustCopy_sleep (int n) @ [Attempt]) = [MustCopy_delay (Suc n)]"
proof -
  have "n \<le> 10 \<Longrightarrow> wrap64 (int n * Second) = int n * Second"
    by (intro wrap64_id) (simp_all add: Second_def)
  then show ?thesis
    by (auto simp: MustCopy_sleep_def MustCopy_delay_def Minute_def)
qed

lemma state_after_Suc: "state_after attempt (Suc n) st = snd (attempt (state_after attempt n st))"
  by (simp add: state_after_def)

lemma MustCopy_body_trace:
  "MustCopy_trace (MustCopy_body attempt (r, tr, st)) = tr @ MustCopy_sleep r @ [Attempt]"
  by (simp add: MustCopy_body_def split: prod.splits option.splits)

lemma MustCopy_body_fail:
  "fst (attempt st) \<noteq> None \<Longrightarrow>
   MustCopy_body attempt (r, tr, st) =
     Inl (wrap64 (r + 1), tr @ MustCopy_sleep r @ [Attempt], snd (attempt st))"
  by (auto simp: MustCopy_body_def split: prod.splits option.splits)

lemma MustCopy_steps_failing:
  assumes "\<forall>k<n. fst (attempt (state_after attempt k st)) \<noteq> None" and "n < 2 ^ 63"
  shows "\<exists>tr. steps (MustCopy_body attempt) n (0, [], st) = Inl (int n, tr, state_after attempt n st)
           \<and> (\<forall>tr2. delays_from 0 (tr @ tr2) = map MustCopy_delay [1..<Suc n] @ delays_from 0 tr2)"
  using assms
proof (induction n)
  case 0
  show ?case by (simp add: state_after_def)
next
  case (Suc n)
  from Suc.prems have fails: "\<forall>k<n. fst (attempt (state_after attempt k st)) \<noteq> None"
    and bound: "n < 2 ^ 63" by simp_all
  from Suc.IH [OF fails bound] obtain tr where
    run: "steps (MustCopy_body attempt) n (0, [], st) = Inl (int n, tr, state_after attempt n st)"
    and del: "\<And>tr2. delays_from 0 (tr @ tr2) = map MustCopy_delay [1..<Suc n] @ delays_from 0 tr2"
    by blast
  from Suc.prems have last_fails: "fst (attempt (state_after attempt n st)) \<noteq> None" by simp
  have w: "wrap64 (int n + 1) = int (Suc n)"
    using Suc.prems(2) by (simp add: wrap64_id)
  let ?tr = "tr @ MustCopy_sleep (int n) @ [Attempt]"
  have step: "steps (MustCopy_body attempt) (Suc n) (0, [], st) =
          MustCopy_body attempt (int n, tr, state_after attempt n st)"
    by (simp only: steps_Suc_right run sum.case)
  have "MustCopy_body attempt (int n, tr, state_after attempt n st) =
          Inl (wrap64 (int n + 1), ?tr, snd (attempt (state_after attempt n st)))"
    using last_fails by (rule MustCopy_body_fail)
  with step have run': "steps (MustCopy_body attempt) (Suc n) (0, [], st) =
          Inl (int (Suc n), ?tr, state_after attempt (Suc n) st)"
    by (simp only: w state_after_Suc)
  have sl: "delays_from 0 (MustCopy_sleep (int n) @ [Attempt]) = [MustCopy_delay (Suc n)]"
    using bound by (rule delays_MustCopy_sleep)
  have del': "delays_from 0 (?tr @ tr2) = map MustCopy_delay [1..<Suc (Suc n)] @ delays_from 0 tr2"
    for tr2
  proof -
    have "delays_from 0 (?tr @ tr2) = delays_from 0 (tr @ (MustCopy_sleep (int n) @ Attempt # tr2))"
      by simp
    also have "\<dots> = map MustCopy_delay [1..<Suc n]
                     @ delays_from 0 (MustCopy_sleep (int n) @ Attempt # tr2)"
      by (rule del)
    also have "delays_from 0 (MustCopy_sleep (int n) @ Attempt # tr2)
                 = [MustCopy_delay (Suc n)] @ delays_from 0 tr2"
      by (subst delays_from_append_Attempt) (simp only: sl)
    finally show ?thesis by simp
  qed
  from run' del' show ?case by blast
qed

lemma MustCopy_delays:
  assumes "1 \<le> N" and "N \<le> 2 ^ 63"
    and "\<forall>k<N - 1. fst (attempt (state_after attempt k st)) \<noteq> None"
  shows "delays (MustCopy_trace (steps (MustCopy_body attempt) N (0, [], st)))
           = map MustCopy_delay [1..<Suc N]"
proof -
  from assms(1) obtain n where N: "N = Suc n" by (cases N) auto
  with assms have fails: "\<forall>k<n. fst (attempt (state_after attempt k st)) \<noteq> None"
    and bound: "n < 2 ^ 63" by simp_all
  from MustCopy_steps_failing [OF fails bound] obtain tr where
    run: "steps (MustCopy_body attempt) n (0, [], st) = Inl (int n, tr, state_after attempt n st)"
    and del: "\<And>tr2. delays_from 0 (tr @ tr2) = map MustCopy_delay [1..<Suc n] @ delays_from 0 tr2"
    by blast
  have "steps (MustCopy_body attempt) (Suc n) (0, [], st) =
          MustCopy_body attempt (int n, tr, state_after attempt n st)"
    by (simp only: steps_Suc_right run sum.case)
  then have "MustCopy_trace (steps (MustCopy_body attempt) (Suc n) (0, [], st))
               = tr @ MustCopy_sleep (int n) @ [Attempt]"
    by (simp only: MustCopy_body_trace)
  moreover have "delays_from 0 (MustCopy_sleep (int n) @ [Attempt]) = [MustCopy_delay (Suc n)]"
    using bound by (rule delays_MustCopy_sleep)
  ultimately show ?thesis
    using del N by (simp add: delays_def)
qed

lemma delays_TryCopy_sleep:
  assumes "n \<le> 9223372036"
  shows "delays_from 0 (TryCopy_sleep (int n) @ [Attempt]) = [TryCopy_delay (Suc n)]"
proof -
  have "wrap64 (int n * Second) = int n * Second"
    using assms by (intro wrap64_id) (simp_all add: Second_def)
  then show ?thesis
    by (auto simp: TryCopy_sleep_def TryCopy_delay_def)
qed

lemma TryCopy_body_trace:
  "r \<le> trys \<Longrightarrow>
   TryCopy_trace (TryCopy_body attempt trys err (r, tr, st)) = tr @ TryCopy_sleep r @ [Attempt]"
  by (simp add: TryCopy_body_def split: prod.splits option.splits)

lemma TryCopy_body_fail:
  "fst (attempt st) \<noteq> None \<Longrightarrow> r \<le> trys \<Longrightarrow>
   TryCopy_body attempt trys err (r, tr, st) =
     Inl (wrap64 (r + 1), tr @ TryCopy_sleep r @ [Attempt], snd (attempt st))"
  by (auto simp: TryCopy_body_def split: prod.splits option.splits)

lemma TryCopy_steps_failing:
  assumes "\<forall>k<n. fst (attempt (state_after attempt k st)) \<noteq> None"
    and "n \<le> 9223372037" and "int n \<le> trys + 1"
  shows "\<exists>tr. steps (TryCopy_body attempt trys err) n (0, [], st)
                = Inl (int n, tr, state_after attempt n st)
           \<and> (\<forall>tr2. delays_from 0 (tr @ tr2) = map TryCopy_delay [1..<Suc n] @ delays_from 0 tr2)"
  using assms
proof (induction n)
  case 0
  show ?case by (simp add: state_after_def)
next
  case (Suc n)
  from Suc.prems have fails: "\<forall>k<n. fst (attempt (state_after attempt k st)) \<noteq> None"
    and bound: "n \<le> 9223372037" and le: "int n \<le> trys + 1" by simp_all
  from Suc.IH [OF fails bound le] obtain tr where
    run: "steps (TryCopy_body attempt trys err) n (0, [], st)
            = Inl (int n, tr, state_after attempt n st)"
    and del: "\<And>tr2. delays_from 0 (tr @ tr2) = map TryCopy_delay [1..<Suc n] @ delays_from 0 tr2"
    by blast
  from Suc.prems have last_fails: "fst (attempt (state_after attempt n st)) \<noteq> None" by simp
  from Suc.prems have le': "int n \<le> trys" and small: "n \<le> 9223372036" by simp_all
  have w: "wrap64 (int n + 1) = int (Suc n)"
    using small by (simp add: wrap64_id)
  let ?tr = "tr @ TryCopy_sleep (int n) @ [Attempt]"
  have step: "steps (TryCopy_body attempt trys err) (Suc n) (0, [], st) =
          TryCopy_body attempt trys err (int n, tr, state_after attempt n st)"
    by (simp only: steps_Suc_right run sum.case)
  have "TryCopy_body attempt trys err (int n, tr, state_after attempt n st) =
          Inl (wrap64 (int n + 1), ?tr, snd (attempt (state_after attempt n st)))"
    using last_fails le' by (rule TryCopy_body_fail)
  with step have run': "steps (TryCopy_body attempt trys err) (Suc n) (0, [], st) =
          Inl (int (Suc n), ?tr, state_after attempt (Suc n) st)"
    by (simp only: w state_after_Suc)
  have sl: "delays_from 0 (TryCopy_sleep (int n) @ [Attempt]) = [TryCopy_delay (Suc n)]"
    using small by (rule delays_TryCopy_sleep)
  have del': "delays_from 0 (?tr @ tr2) = map TryCopy_delay [1..<Suc (Suc n)] @ delays_from 0 tr2"
    for tr2
  proof -
    have "delays_from 0 (?tr @ tr2) = delays_from 0 (tr @ (TryCopy_sleep (int n) @ Attempt # tr2))"
      by simp
    also have "\<dots> = map TryCopy_delay [1..<Suc n]
                     @ delays_from 0 (TryCopy_sleep (int n) @ Attempt # tr2)"
      by (rule del)
    also have "delays_from 0 (TryCopy_sleep (int n) @ Attempt # tr2)
                 = [TryCopy_delay (Suc n)] @ delays_from 0 tr2"
      by (subst delays_from_append_Attempt) (simp only: sl)
    finally show ?thesis by simp
  qed
  from run' del' show ?case by blast
qed

lemma TryCopy_delays:
  assumes "1 \<le> N" and "N \<le> 9223372037" and "int N \<le> trys + 1"
    and "\<forall>k<N - 1. fst (attempt (state_after attempt k st)) \<noteq> None"
  shows "delays (TryCopy_trace (steps (TryCopy_body attempt trys err) N (0, [], st)))
           = map TryCopy_delay [1..<Suc N]"
proof -
  from assms(1) obtain n where N: "N = Suc n" by (cases N) auto
  with assms have fails: "\<forall>k<n. fst (attempt (state_after attempt k st)) \<noteq> None"
    and bound: "n \<le> 9223372037" and small: "n \<le> 9223372036"
    and le: "int n \<le> trys + 1" and le': "int n \<le> trys" by simp_all
  from TryCopy_steps_failing [OF fails bound le] obtain tr where
    run: "steps (TryCopy_body attempt trys err) n (0, [], st)
            = Inl (int n, tr, state_after attempt n st)"
    and del: "\<And>tr2. delays_from 0 (tr @ tr2) = map TryCopy_delay [1..<Suc n] @ delays_from 0 tr2"
    by blast
  have "steps (TryCopy_body attempt trys err) (Suc n) (0, [], st) =
          TryCopy_body attempt trys err (int n, tr, state_after attempt n st)"
    by (simp only: steps_Suc_right run sum.case)
  then have "TryCopy_trace (steps (TryCopy_body attempt trys err) (Suc n) (0, [], st))
               = tr @ TryCopy_sleep (int n) @ [Attempt]"
    using le' by (simp only: TryCopy_body_trace)
  moreover have "delays_from 0 (TryCopy_sleep (int n) @ [Attempt]) = [TryCopy_delay (Suc n)]"
    using small by (rule delays_TryCopy_sleep)
  ultimately show ?thesis
    using del N by (simp add: delays_def)
qed

text \<open>
  Claim C6, as the code has it. In a run of either loop in which the attempts before
  attempt \<open>N\<close> fail, the delays slept before the attempts \<open>1\<close> to \<open>N\<close> are these. In
  \<^verbatim>\<open>MustCopy\<close> (for \<open>N\<close> up to \<open>2 ^ 63\<close>, where the counter would wrap): nothing
  before attempt 1, \<open>N - 1\<close> seconds before the attempts 2 to 11, one minute before every
  later attempt. In \<^verbatim>\<open>TryCopy\<close> (which makes attempt \<open>N\<close> only if \<open>N \<le> trys + 1\<close>, and
  for \<open>N\<close> small enough for the duration not to overflow): nothing before attempt 1 and
  \<open>N - 1\<close> seconds before every later attempt, with no ceiling.
\<close>

theorem retry_delays:
  assumes "1 \<le> N"
    and "\<forall>k<N - 1. fst (attempt (state_after attempt k st)) \<noteq> None"
  shows "(N \<le> 2 ^ 63 \<longrightarrow>
            delays (MustCopy_trace (steps (MustCopy_body attempt) N (0, [], st)))
              = map MustCopy_delay [1..<Suc N])
       \<and> (N \<le> 9223372037 \<and> int N \<le> trys + 1 \<longrightarrow>
            delays (TryCopy_trace (steps (TryCopy_body attempt trys err) N (0, [], st)))
              = map TryCopy_delay [1..<Suc N])"
  using assms MustCopy_delays [of N attempt st] TryCopy_delays [of N trys attempt st err]
  by blast

lemma upt_13: "[Suc 0..<13] = [1,2,3,4,5,6,7,8,9,10,11,12]"
  by code_simp

theorem retry_delays_witness:
  "delays (MustCopy_trace (steps (MustCopy_body always_down) 12 (0, [], ())))
      = [0, Second, 2 * Second, 3 * Second, 4 * Second, 5 * Second, 6 * Second, 7 * Second,
         8 * Second, 9 * Second, 10 * Second, Minute]
   \<and> delays (TryCopy_trace (steps (TryCopy_body always_down 20 None) 12 (0, [], ())))
      = [0, Second, 2 * Second, 3 * Second, 4 * Second, 5 * Second, 6 * Second, 7 * Second,
         8 * Second, 9 * Second, 10 * Second, 11 * Second]"
proof -
  have h: "\<forall>k<12 - 1. fst (always_down (state_after always_down k ())) \<noteq> None"
    by (simp add: always_down_def)
  show ?thesis
    using retry_delays [of 12 always_down "()" 20 None, OF _ h]
    by (simp add: upt_13 MustCopy_delay_def TryCopy_delay_def)
qed

text \<open>
  Claim C6 as it is stated fails: the delay before attempt 2 of \<^verbatim>\<open>MustCopy\<close> is one
  second, not two, and the delay before attempt 12 of \<^verbatim>\<open>TryCopy\<close> is eleven seconds,
  not the ceiling of one minute.
\<close>

theorem retry_delays_counterexample:
  "delays (MustCopy_trace (steps (MustCopy_body always_down) 2 (0, [], ()))) ! (2 - 1) = Second
   \<and> Second \<noteq> 2 * Second
   \<and> delays (TryCopy_trace (steps (TryCopy_body always_down 20 None) 12 (0, [], ()))) ! (12 - 1)
       = 11 * Second
   \<and> 11 * Second \<noteq> Minute"
  by (simp add: eval_nat_numeral MustCopy_body_def TryCopy_body_def always_down_def
      MustCopy_sleep_def TryCopy_sleep_def wrap64_def delays_def Second_def Minute_def)

subsection \<open>\<^verbatim>\<open>MustCopy\<close> returns only on success\<close>

lemma state_after_Suc_right:
  "state_after attempt (Suc n) st = state_after attempt n (snd (attempt st))"
  unfolding state_after_def by (simp only: funpow_Suc_right o_apply)

lemma MustCopy_body_success:
  "fst (attempt st) = None \<Longrightarrow>
   MustCopy_body attempt (r, tr, st) = Inr (tr @ MustCopy_sleep r @ [Attempt], snd (attempt st))"
  by (auto simp: MustCopy_body_def split: prod.splits option.splits)

lemma MustCopy_success_returns:
  "fst (attempt (state_after attempt n st)) = None \<Longrightarrow>
   \<exists>m res. steps (MustCopy_body attempt) m (r, tr, st) = Inr res"
proof (induction n arbitrary: r tr st)
  case 0
  then have "fst (attempt st) = None" by (simp add: state_after_def)
  then have "steps (MustCopy_body attempt) (Suc 0) (r, tr, st)
               = Inr (tr @ MustCopy_sleep r @ [Attempt], snd (attempt st))"
    by (simp add: MustCopy_body_success)
  then show ?case by blast
next
  case (Suc n)
  show ?case
  proof (cases "fst (attempt st) = None")
    case True
    then have "steps (MustCopy_body attempt) (Suc 0) (r, tr, st)
                 = Inr (tr @ MustCopy_sleep r @ [Attempt], snd (attempt st))"
      by (simp add: MustCopy_body_success)
    then show ?thesis by blast
  next
    case False
    from Suc.prems have "fst (attempt (state_after attempt n (snd (attempt st)))) = None"
      by (simp only: state_after_Suc_right)
    from Suc.IH [OF this] obtain m res where
      "steps (MustCopy_body attempt) m
         (wrap64 (r + 1), tr @ MustCopy_sleep r @ [Attempt], snd (attempt st)) = Inr res"
      by blast
    with False have "steps (MustCopy_body attempt) (Suc m) (r, tr, st) = Inr res"
      by (simp add: MustCopy_body_fail)
    then show ?thesis by blast
  qed
qed

lemma MustCopy_returns_success:
  "steps (MustCopy_body attempt) m (r, tr, st) = Inr res \<Longrightarrow>
   \<exists>n. fst (attempt (state_after attempt n st)) = None"
proof (induction m arbitrary: r tr st)
  case 0
  then show ?case by simp
next
  case (Suc m)
  show ?case
  proof (cases "fst (attempt st) = None")
    case True
    then have "fst (attempt (state_after attempt 0 st)) = None" by (simp add: state_after_def)
    then show ?thesis by blast
  next
    case False
    with Suc.prems have "steps (MustCopy_body attempt) m
         (wrap64 (r + 1), tr @ MustCopy_sleep r @ [Attempt], snd (attempt st)) = Inr res"
      by (simp add: MustCopy_body_fail)
    from Suc.IH [OF this] obtain n where
      "fst (attempt (state_after attempt n (snd (attempt st)))) = None" by blast
    then have "fst (attempt (state_after attempt (Suc n) st)) = None"
      by (simp only: state_after_Suc_right)
    then show ?thesis by blast
  qed
qed

lemma MustCopy_loop_returns_iff:
  "for_loop (MustCopy_body attempt) (r, tr, st) \<noteq> None
     \<longleftrightarrow> (\<exists>n. fst (attempt (state_after attempt n st)) = None)"
proof
  assume "for_loop (MustCopy_body attempt) (r, tr, st) \<noteq> None"
  then obtain res where "for_loop (MustCopy_body attempt) (r, tr, st) = Some res" by auto
  then obtain m where "steps (MustCopy_body attempt) m (r, tr, st) = Inr res"
    using for_loop_Some_steps [of "MustCopy_body attempt" "(r, tr, st)" res] by blast
  then show "\<exists>n. fst (attempt (state_after attempt n st)) = None"
    by (rule MustCopy_returns_success)
next
  assume "\<exists>n. fst (attempt (state_after attempt n st)) = None"
  then obtain n where "fst (attempt (state_after attempt n st)) = None" ..
  then obtain m res where "steps (MustCopy_body attempt) m (r, tr, st) = Inr res"
    using MustCopy_success_returns [of attempt n st r tr] by blast
  then have "for_loop (MustCopy_body attempt) (r, tr, st) = Some res"
    by (rule steps_Inr_for_loop)
  then show "for_loop (MustCopy_body attempt) (r, tr, st) \<noteq> None" by simp
qed

lemma attempts_MustCopy_round: "attempts (tr @ MustCopy_sleep r @ [Attempt]) = Suc (attempts tr)"
  by (simp add: attempts_def MustCopy_sleep_def)

lemma MustCopy_retries_forever:
  assumes "\<forall>st. fst (attempt st) \<noteq> None"
  shows "\<exists>r tr st1. steps (MustCopy_body attempt) n (0, [], st) = Inl (r, tr, st1) \<and> attempts tr = n"
proof (induction n)
  case 0
  show ?case by (simp add: attempts_def)
next
  case (Suc n)
  then obtain r tr st1 where
    run: "steps (MustCopy_body attempt) n (0, [], st) = Inl (r, tr, st1)" and n: "attempts tr = n"
    by blast
  from assms have "fst (attempt st1) \<noteq> None" by simp
  then have "MustCopy_body attempt (r, tr, st1)
               = Inl (wrap64 (r + 1), tr @ MustCopy_sleep r @ [Attempt], snd (attempt st1))"
    by (rule MustCopy_body_fail)
  then have "steps (MustCopy_body attempt) (Suc n) (0, [], st)
               = Inl (wrap64 (r + 1), tr @ MustCopy_sleep r @ [Attempt], snd (attempt st1))"
    by (simp only: steps_Suc_right run sum.case)
  moreover have "attempts (tr @ MustCopy_sleep r @ [Attempt]) = Suc n"
    using n by (simp only: attempts_MustCopy_round)
  ultimately show ?case by blast
qed

text \<open>
  Claim C7. \<^verbatim>\<open>MustCopy\<close> returns if and only if some attempt of \<^verbatim>\<open>Copy\<close> succeeds.
  If every attempt fails it never returns, and it retries forever: for every \<open>n\<close> the
  run is still in the loop after \<open>n\<close> rounds, having made \<open>n\<close> attempts.
\<close>

theorem MustCopy_never_returns_on_failure:
  "(MustCopy env s r sz dstfile w \<noteq> None
      \<longleftrightarrow> (\<exists>n. fst (Copy_attempt env sz dstfile
                    (state_after (Copy_attempt env sz dstfile) n (s, r, w))) = None))
   \<and> ((\<forall>st. fst (Copy_attempt env sz dstfile st) \<noteq> None) \<longrightarrow>
        MustCopy env s r sz dstfile w = None
        \<and> (\<forall>n. \<exists>c tr st1. steps (MustCopy_body (Copy_attempt env sz dstfile)) n (0, [], (s, r, w))
                              = Inl (c, tr, st1) \<and> attempts tr = n))"
proof (intro conjI impI allI)
  show "MustCopy env s r sz dstfile w \<noteq> None
      \<longleftrightarrow> (\<exists>n. fst (Copy_attempt env sz dstfile
                    (state_after (Copy_attempt env sz dstfile) n (s, r, w))) = None)"
    unfolding MustCopy_def by (rule MustCopy_loop_returns_iff)
next
  assume fails: "\<forall>st. fst (Copy_attempt env sz dstfile st) \<noteq> None"
  then have "\<not> (\<exists>n. fst (Copy_attempt env sz dstfile
                    (state_after (Copy_attempt env sz dstfile) n (s, r, w))) = None)"
    by blast
  then show "MustCopy env s r sz dstfile w = None"
    unfolding MustCopy_def using MustCopy_loop_returns_iff [of "Copy_attempt env sz dstfile"]
    by blast
next
  fix n
  assume fails: "\<forall>st. fst (Copy_attempt env sz dstfile st) \<noteq> None"
  then show "\<exists>c tr st1. steps (MustCopy_body (Copy_attempt env sz dstfile)) n (0, [], (s, r, w))
                              = Inl (c, tr, st1) \<and> attempts tr = n"
    by (rule MustCopy_retries_forever)
qed

lemma TryCopy_body_exhausted:
  "trys < r \<Longrightarrow> TryCopy_body attempt trys err (r, tr, st) = Inr (Some (ErrTimes err r), tr, st)"
  by (simp add: TryCopy_body_def)

lemma TryCopy_loop_three:
  assumes "\<forall>st. fst (attempt st) \<noteq> None"
  shows "for_loop (TryCopy_body attempt 3 err) (0, [], st)
           = Some (Some (ErrTimes err 4),
                   [Attempt, Sleep Second, Attempt, Sleep (2 * Second), Attempt,
                    Sleep (3 * Second), Attempt],
                   state_after attempt 4 st)"
proof -
  have f: "fst (attempt x) \<noteq> None" for x using assms by simp
  have "steps (TryCopy_body attempt 3 err) 5 (0, [], st)
          = Inr (Some (ErrTimes err 4),
                   [Attempt, Sleep Second, Attempt, Sleep (2 * Second), Attempt,
                    Sleep (3 * Second), Attempt],
                   state_after attempt 4 st)"
    by (simp add: eval_nat_numeral TryCopy_body_fail [OF f] TryCopy_body_exhausted state_after_def
        wrap64_def TryCopy_sleep_def Second_def)
  then show ?thesis by (rule steps_Inr_for_loop)
qed

text \<open>In the simulated environment where nothing can be dialed, every attempt fails.\<close>

lemma sim_Dial_refused: "\<exists>e w1. Dial (sim False ok) d w = (Inl e, w1)"
  by (simp add: Dial_def sim_def)

lemma sim_newSession_refused:
  "\<exists>e s1 w1. newSession (sim False (\<lambda>c. False)) s w = (Inl e, s1, w1)"
proof (cases "client s")
  case None
  obtain e w1 where "Dial (sim False (\<lambda>c. False)) (dialer s) w = (Inl e, w1)"
    using sim_Dial_refused by blast
  with None show ?thesis by (simp add: newSession_def)
next
  case (Some c)
  obtain e1 w2 where n: "NewSession (sim False (\<lambda>c. False)) c w = (Inl e1, w2)"
    by (cases c) (simp add: sim_def)
  obtain e w3 where "Dial (sim False (\<lambda>c. False)) (dialer s)
       (client_Close (sim False (\<lambda>c. False)) c w2) = (Inl e, w3)"
    using sim_Dial_refused by blast
  with Some n show ?thesis by (simp add: newSession_def)
qed

lemma sim_Copy_refused:
  "fst (Copy_attempt (sim False (\<lambda>c. False)) sz dstfile st) \<noteq> None"
proof -
  obtain s r w where st: "st = (s, r, w)" by (cases st) auto
  obtain e s1 w1 where "newSession (sim False (\<lambda>c. False)) s w = (Inl e, s1, w1)"
    using sim_newSession_refused by blast
  with st show ?thesis by (simp add: Copy_attempt_def Copy_def)
qed

theorem MustCopy_never_returns_on_failure_witness:
  "MustCopy (sim False (\<lambda>c. False)) (NewHelper dialer0) [] 0 ''/tmp/empty.txt'' [] = None"
  using MustCopy_never_returns_on_failure
    [of "sim False (\<lambda>c. False)" "NewHelper dialer0" "[]" 0 "''/tmp/empty.txt''" "[]"]
    sim_Copy_refused [of 0 "''/tmp/empty.txt''"]
  by blast

subsection \<open>\<^verbatim>\<open>TryCopy\<close> with three tries\<close>

text \<open>
  Claim C1, evaluated on the code. When every attempt of \<^verbatim>\<open>Copy\<close> fails,
  \<^verbatim>\<open>TryCopy\<close> with \<open>trys = 3\<close> makes four attempts, not three, sleeping one, two and
  three seconds between them, and returns an \<^verbatim>\<open>ErrTimes\<close> whose \<^verbatim>\<open>times\<close> is 4 and
  whose \<^verbatim>\<open>err\<close> is nil, not the error of the last attempt.
\<close>

theorem TryCopy_three_trys:
  assumes "\<forall>st. fst (Copy_attempt env sz dstfile st) \<noteq> None"
  shows "TryCopy env s r sz dstfile 3 w
           = Some (Some (ErrTimes None 4),
                   [Attempt, Sleep Second, Attempt, Sleep (2 * Second), Attempt,
                    Sleep (3 * Second), Attempt],
                   state_after (Copy_attempt env sz dstfile) 4 (s, r, w))"
  unfolding TryCopy_def using assms by (rule TryCopy_loop_three)

lemma sim_refused_run:
  "Copy_attempt (sim False (\<lambda>c. False)) sz dstfile (NewHelper dialer0, r, w)
     = (Some (Err ''connection refused''), NewHelper dialer0, r, w @ [Dialed ''host:22''])"
  by (simp add: Copy_attempt_def Copy_def newSession_def NewHelper_def Dial_def dialer0_def sim_def)

theorem TryCopy_three_trys_witness:
  "TryCopy (sim False (\<lambda>c. False)) (NewHelper dialer0) [] 0 ''/tmp/empty.txt'' 3 []
     = Some (Some (ErrTimes None 4),
             [Attempt, Sleep Second, Attempt, Sleep (2 * Second), Attempt,
              Sleep (3 * Second), Attempt],
             NewHelper dialer0, [],
             [Dialed ''host:22'', Dialed ''host:22'', Dialed ''host:22'', Dialed ''host:22''])"
proof -
  have h: "\<forall>st. fst (Copy_attempt (sim False (\<lambda>c. False)) 0 ''/tmp/empty.txt'' st) \<noteq> None"
    using sim_Copy_refused by blast
  show ?thesis
    using TryCopy_three_trys [OF h, of "NewHelper dialer0" "[]" "[]"]
    by (simp add: state_after_def eval_nat_numeral sim_refused_run)
qed

section \<open>The dialer verifies no host key\<close>

text \<open>
  Claim C10. The \<^verbatim>\<open>HostKeyCallback\<close> of the configuration that \<^verbatim>\<open>Dial\<close> passes to
  \<^verbatim>\<open>ssh.Dial\<close> returns nil for every host name, remote address and host key, whatever
  the dialer and the authentication method.
\<close>

theorem Dial_accepts_every_host_key:
  "HostKeyCallback (Dial_config d authm) hostname remote key = None"
  by (simp add: Dial_config_def Dial_HostKeyCallback_def)

text \<open>\<^verbatim>\<open>Dial\<close> fails before dialing, or dials with that configuration.\<close>

lemma Dial_cases:
  "(\<exists>e w1. Dial env d w = (Inl e, w1))
   \<or> (\<exists>authm w1. Dial env d w = ssh_Dial env ''tcp'' (SSHAddr d) (Dial_config d authm) w1)"
  unfolding Dial_def by (auto split: prod.splits sum.splits)

section \<open>Acquiring a session\<close>

lemma fmt_d_small: "fmt_d 2 = ''2''" "fmt_d 7 = ''7''" "fmt_d 0 = ''0''"
  by (simp_all add: fmt_d_def digits.simps digit_char_def)

text \<open>
  Claim C2, as the code has it. When the session cannot be created on the connection in use
  (cached, or dialed by this call) nor on the connection redialed after it, \<^verbatim>\<open>newSession\<close>
  returns the second error and keeps the redialed connection cached. The next call does
  not dial first: it tries to create a session on that connection, and closes it and redials
  only if that fails.
\<close>

theorem newSession_second_failure:
  assumes "(case client s of None \<Rightarrow> Dial env (dialer s) w | Some c0 \<Rightarrow> (Inr c0, w)) = (Inr c, w0)"
    and "NewSession env c w0 = (Inl e1, w1)"
    and "Dial env (dialer s) (client_Close env c w1) = (Inr c2, w2)"
    and "NewSession env c2 w2 = (Inl e2, w3)"
  shows "newSession env s w = (Inl e2, s\<lparr>client := Some c2\<rparr>, w3)
       \<and> newSession env (s\<lparr>client := Some c2\<rparr>) w3
           = (case NewSession env c2 w3 of
                (Inr sess, w4) \<Rightarrow> (Inr sess, s\<lparr>client := Some c2\<rparr>, w4)
              | (Inl e3, w4) \<Rightarrow>
                  (case Dial env (dialer s) (client_Close env c2 w4) of
                     (Inl e, w5) \<Rightarrow> (Inl e, s\<lparr>client := None\<rparr>, w5)
                   | (Inr c3, w5) \<Rightarrow>
                       (case NewSession env c3 w5 of
                          (res, w6) \<Rightarrow> (res, s\<lparr>client := Some c3\<rparr>, w6))))"
  using assms by (simp add: newSession_def split: prod.splits sum.splits)

text \<open>
  Claim C2 as it is stated fails: with client 7 cached and no client able to open a
  session, the call leaves client 2 cached, and the next call starts with a session on
  client 2, not with a dial.
\<close>

theorem newSession_second_failure_counterexample:
  "newSession (sim True (\<lambda>c. False)) helper7 []
     = (Inl (Err ''no session on client 2''), helper7\<lparr>client := Some (Client 2)\<rparr>,
        [SessionOpened (Client 7), ClientClosed (Client 7), Dialed ''host:22'',
         SessionOpened (Client 2)])
   \<and> client (helper7\<lparr>client := Some (Client 2)\<rparr>) \<noteq> None
   \<and> snd (snd (newSession (sim True (\<lambda>c. False)) (helper7\<lparr>client := Some (Client 2)\<rparr>)
         [SessionOpened (Client 7), ClientClosed (Client 7), Dialed ''host:22'',
          SessionOpened (Client 2)]))
       = [SessionOpened (Client 7), ClientClosed (Client 7), Dialed ''host:22'',
          SessionOpened (Client 2),
          SessionOpened (Client 2), ClientClosed (Client 2), Dialed ''host:22'',
          SessionOpened (Client 6)]"
  by (simp add: newSession_def helper7_def sim_def Dial_def dialer0_def fmt_d_small)

theorem newSession_second_failure_witness:
  "newSession (sim True (\<lambda>c. c = Client 9)) helper7 []
     = (Inl (Err ''no session on client 2''), helper7\<lparr>client := Some (Client 2)\<rparr>,
        [SessionOpened (Client 7), ClientClosed (Client 7), Dialed ''host:22'',
         SessionOpened (Client 2)])"
  using newSession_second_failure [where s = helper7 and env = "sim True (\<lambda>c. c = Client 9)"
      and w = "[]" and c = "Client 7" and ?w0.0 = "[]"
      and ?e1.0 = "Err ''no session on client 7''" and ?w1.0 = "[SessionOpened (Client 7)]"
      and ?c2.0 = "Client 2"
      and ?w2.0 = "[SessionOpened (Client 7), ClientClosed (Client 7), Dialed ''host:22'']"
      and ?e2.0 = "Err ''no session on client 2''"
      and ?w3.0 = "[SessionOpened (Client 7), ClientClosed (Client 7), Dialed ''host:22'',
         SessionOpened (Client 2)]"]
  by (simp add: helper7_def sim_def Dial_def dialer0_def fmt_d_small)

section \<open>The protocol encoder\<close>

lemma digit_of_digit_char: "d < 10 \<Longrightarrow> digit_of (digit_char d) = d"
proof -
  assume "d < 10"
  then have "d = 0 \<or> d = 1 \<or> d = 2 \<or> d = 3 \<or> d = 4 \<or> d = 5 \<or> d = 6 \<or> d = 7
      \<or> d = 8 \<or> d = 9"
    by arith
  then show ?thesis
    by (elim disjE) (simp_all add: digit_of_def digit_char_def)
qed

lemma digit_of_sep: "digit_of (CHR '' '') = 10" "digit_of (CHR 0x0A) = 10"
  by (simp_all add: digit_of_def)

lemma digits_nonempty: "digits b n \<noteq> []"
  by (subst digits.simps) simp

lemma digits_all:
  "2 \<le> b \<Longrightarrow> b \<le> 10 \<Longrightarrow> list_all (\<lambda>c. digit_of c < b) (digits b n)"
proof (induction b n rule: digits.induct)
  case (1 b n)
  show ?case
  proof (cases "n < b")
    case True
    with "1.prems" have "digit_of (digit_char n) < b"
      by (simp add: digit_of_digit_char)
    with True show ?thesis by (subst digits.simps) simp
  next
    case False
    with "1.prems" have a: "list_all (\<lambda>c. digit_of c < b) (digits b (n div b))"
      using "1.IH" by simp
    have "n mod b < b" using "1.prems" by simp
    moreover from this "1.prems" have "n mod b < 10" by linarith
    ultimately have "digit_of (digit_char (n mod b)) < b"
      by (simp add: digit_of_digit_char)
    with a False "1.prems" show ?thesis by (subst digits.simps) simp
  qed
qed

lemma number_not_sep:
  assumes "list_all (\<lambda>c. digit_of c < b) ds" and "b \<le> 10"
  shows "CHR '' '' \<notin> set ds" and "CHR 0x0A \<notin> set ds"
proof -
  have "\<forall>c\<in>set ds. digit_of c < 10"
    using assms by (auto simp: list_all_iff)
  then show "CHR '' '' \<notin> set ds" and "CHR 0x0A \<notin> set ds"
    using digit_of_sep by fastforce+
qed

lemma number_digits: "2 \<le> b \<Longrightarrow> b \<le> 10 \<Longrightarrow> number b (digits b n)"
  by (simp add: number_def digits_nonempty digits_all)

lemma number_value_snoc: "number_value b (ds @ [c]) = b * number_value b ds + digit_of c"
  by (simp add: number_value_def)

lemma number_value_digits: "2 \<le> b \<Longrightarrow> b \<le> 10 \<Longrightarrow> number_value b (digits b n) = n"
proof (induction b n rule: digits.induct)
  case (1 b n)
  show ?case
  proof (cases "n < b")
    case True
    with "1.prems" have "digit_of (digit_char n) = n"
      by (simp add: digit_of_digit_char)
    with True show ?thesis
      by (subst digits.simps) (simp add: number_value_def)
  next
    case False
    with "1.prems" have a: "number_value b (digits b (n div b)) = n div b"
      using "1.IH" by simp
    have "n mod b < b" using "1.prems" by simp
    with "1.prems" have "n mod b < 10" by linarith
    then have d: "digit_of (digit_char (n mod b)) = n mod b"
      by (rule digit_of_digit_char)
    have "digits b n = digits b (n div b) @ [digit_char (n mod b)]"
      using False "1.prems" by (subst digits.simps) simp
    then show ?thesis
      by (simp add: number_value_snoc a d)
  qed
qed

lemma number_value_leading_zero: "number_value b (CHR ''0'' # ds) = number_value b ds"
  by (simp add: number_value_def digit_of_def)

lemma fmt_sharp_o_number: "number 8 (fmt_sharp_o m)"
  using number_digits [of 8 m]
  by (simp add: fmt_sharp_o_def Let_def number_def digit_of_def)

lemma fmt_sharp_o_hd: "hd (fmt_sharp_o m) = CHR ''0''"
  by (simp add: fmt_sharp_o_def Let_def)

lemma fmt_sharp_o_value: "number_value 8 (fmt_sharp_o m) = m"
  by (simp add: fmt_sharp_o_def Let_def number_value_leading_zero number_value_digits)

lemma fmt_sharp_o_not_sep: "CHR '' '' \<notin> set (fmt_sharp_o m)"
  using fmt_sharp_o_number [of m] number_not_sep(1) [of 8 "fmt_sharp_o m"]
  by (simp add: number_def)

lemma fmt_d_not_sep: "0 \<le> i \<Longrightarrow> CHR '' '' \<notin> set (fmt_d i)"
  using number_digits [of 10 "nat i"] number_not_sep(1) [of 10 "digits 10 (nat i)"]
  by (simp add: number_def fmt_d_def)

lemma takeWhile_sep: "sep \<notin> set xs \<Longrightarrow> takeWhile (\<lambda>c. c \<noteq> sep) (xs @ sep # ys) = xs"
  by (induction xs) auto

lemma dropWhile_sep: "sep \<notin> set xs \<Longrightarrow> dropWhile (\<lambda>c. c \<noteq> sep) (xs @ sep # ys) = sep # ys"
  by (induction xs) auto

lemma sink_parse_stream:
  assumes m: "number 8 m" "hd m = CHR ''0''" "CHR '' '' \<notin> set m"
    and n: "number 10 n" "CHR '' '' \<notin> set n"
    and name: "CHR 0x0A \<notin> set name"
    and body: "length body = number_value 10 n"
  shows "sink_parse (CHR ''C'' # m @ CHR '' '' # n @ CHR '' '' # name @ CHR 0x0A # body @ [CHR 0x00])
           = Some (number_value 8 m, int (number_value 10 n), name, body)"
proof -
  let ?r2 = "name @ CHR 0x0A # body @ [CHR 0x00]"
  let ?r1 = "n @ CHR '' '' # ?r2"
  let ?r0 = "m @ CHR '' '' # ?r1"
  have d0: "dropWhile (\<lambda>c. c \<noteq> CHR '' '') ?r0 = CHR '' '' # ?r1"
    and t0: "takeWhile (\<lambda>c. c \<noteq> CHR '' '') ?r0 = m"
    using m(3) by (rule dropWhile_sep, rule takeWhile_sep)
  have d1: "dropWhile (\<lambda>c. c \<noteq> CHR '' '') ?r1 = CHR '' '' # ?r2"
    and t1: "takeWhile (\<lambda>c. c \<noteq> CHR '' '') ?r1 = n"
    using n(2) by (rule dropWhile_sep, rule takeWhile_sep)
  have d2: "dropWhile (\<lambda>c. c \<noteq> CHR 0x0A) ?r2 = CHR 0x0A # body @ [CHR 0x00]"
    and t2: "takeWhile (\<lambda>c. c \<noteq> CHR 0x0A) ?r2 = name"
    using name by (rule dropWhile_sep, rule takeWhile_sep)
  show ?thesis
    unfolding sink_parse_def list.case d0 d1 d2 t0 t1 t2 Let_def
    using m(1,2) n(1) body by simp
qed

text \<open>The stream in terms of what \<^verbatim>\<open>io.Copy\<close> moves.\<close>

lemma copy_writer_io_Copy_stream:
  assumes "0 \<le> sz" and "CHR 0x0A \<notin> set fileName"
    and "length (fst (io_Copy contents)) = nat sz"
  shows "fst (copy_writer sz mode fileName contents)
           = ''C'' @ fmt_sharp_o mode @ '' '' @ fmt_d sz @ '' '' @ fileName @ [CHR 0x0A]
               @ fst (io_Copy contents) @ [CHR 0x00]
       \<and> sink_parse (fst (copy_writer sz mode fileName contents))
           = Some (mode, sz, fileName, fst (io_Copy contents))
       \<and> copy env sz mode fileName contents destination sess fl w
           = (case session_Run env sess (copy_cmd fl destination)
                     (fst (copy_writer sz mode fileName contents)) w of
                (err, w1) \<Rightarrow> (err, snd (io_Copy contents), session_Close env sess w1))"
proof (intro conjI)
  show stream: "fst (copy_writer sz mode fileName contents)
           = ''C'' @ fmt_sharp_o mode @ '' '' @ fmt_d sz @ '' '' @ fileName @ [CHR 0x0A]
               @ fst (io_Copy contents) @ [CHR 0x00]"
    by (simp add: copy_writer_def split: prod.splits)
  have d: "fmt_d sz = digits 10 (nat sz)"
    using assms(1) by (simp add: fmt_d_def)
  have n: "number 10 (fmt_d sz)" and v: "number_value 10 (fmt_d sz) = nat sz"
    unfolding d by (simp_all add: number_digits number_value_digits)
  have "sink_parse (CHR ''C'' # fmt_sharp_o mode @ CHR '' '' # fmt_d sz @ CHR '' '' # fileName
                      @ CHR 0x0A # fst (io_Copy contents) @ [CHR 0x00])
          = Some (number_value 8 (fmt_sharp_o mode), int (number_value 10 (fmt_d sz)), fileName,
                  fst (io_Copy contents))"
    using fmt_sharp_o_number fmt_sharp_o_hd fmt_sharp_o_not_sep n fmt_d_not_sep [OF assms(1)]
      assms(2)
  proof (rule sink_parse_stream)
    show "length (fst (io_Copy contents)) = number_value 10 (fmt_d sz)"
      using assms(3) v by simp
  qed
  then show "sink_parse (fst (copy_writer sz mode fileName contents))
           = Some (mode, sz, fileName, fst (io_Copy contents))"
    using assms(1) by (simp add: stream fmt_sharp_o_value v)
  show "copy env sz mode fileName contents destination sess fl w
           = (case session_Run env sess (copy_cmd fl destination)
                     (fst (copy_writer sz mode fileName contents)) w of
                (err, w1) \<Rightarrow> (err, snd (io_Copy contents), session_Close env sess w1))"
    by (simp add: copy_def copy_writer_def split: prod.splits)
qed

lemma fmt_small:
  "fmt_sharp_o 420 = ''0644''" "fmt_sharp_o ModePerm = ''0777''" "fmt_d 5 = ''5''"
  "fmt_d 800 = ''800''"
  by (simp_all add: fmt_sharp_o_def fmt_d_def digits.simps digit_char_def ModePerm_def)

lemma io_Copy_chunks:
  "io_Copy (map (\<lambda>c. (c, None)) chunks @ (lastb, Some e) # rest) = (concat chunks @ lastb, rest)"
  "io_Copy (map (\<lambda>c. (c, None)) chunks) = (concat chunks, [])"
  by (induction chunks) simp_all

text \<open>
  Claim C5. Let the reader \<open>contents\<close> return the chunks \<open>chunks\<close> one after the other
  without an error, and then either the bytes \<open>lastb\<close> together with an error (for
  instance \<^verbatim>\<open>io.EOF\<close>) or, being used up, no bytes and \<^verbatim>\<open>io.EOF\<close>; let the size be the
  number of all these bytes and the file name have no newline. Then the goroutine of
  \<^verbatim>\<open>copy\<close> writes the control line, these bytes as they were read and in the order
  they were read, and a zero byte; it leaves the reader after the read that reported the
  error; the sink reads the stream back by the grammar of the wire format as the mode, the
  size, the name and these bytes; and this stream is what goes to the input pipe of the
  session that runs the command.
\<close>

theorem copy_writes_protocol_stream:
  assumes "contents = map (\<lambda>c. (c, None)) chunks @ (lastb, Some e) # rest
           \<or> contents = map (\<lambda>c. (c, None)) chunks \<and> lastb = [] \<and> rest = []"
    and "sz = int (length (concat chunks @ lastb))"
    and "CHR 0x0A \<notin> set fileName"
  shows "copy_writer sz mode fileName contents
           = (''C'' @ fmt_sharp_o mode @ '' '' @ fmt_d sz @ '' '' @ fileName @ [CHR 0x0A]
                @ concat chunks @ lastb @ [CHR 0x00],
              rest)
       \<and> sink_parse (''C'' @ fmt_sharp_o mode @ '' '' @ fmt_d sz @ '' '' @ fileName @ [CHR 0x0A]
                       @ concat chunks @ lastb @ [CHR 0x00])
           = Some (mode, sz, fileName, concat chunks @ lastb)
       \<and> copy env sz mode fileName contents destination sess fl w
           = (case session_Run env sess (''scp '' @ fl @ '' -t '' @ destination)
                     (''C'' @ fmt_sharp_o mode @ '' '' @ fmt_d sz @ '' '' @ fileName @ [CHR 0x0A]
                        @ concat chunks @ lastb @ [CHR 0x00]) w of
                (err, w1) \<Rightarrow> (err, rest, session_Close env sess w1))"
proof -
  from assms(1) have io: "io_Copy contents = (concat chunks @ lastb, rest)"
    by (auto simp: io_Copy_chunks)
  have nonneg: "0 \<le> sz" and len: "length (fst (io_Copy contents)) = nat sz"
    using assms(2) io by simp_all
  note G = copy_writer_io_Copy_stream [OF nonneg assms(3) len, of mode env destination sess fl w]
  have stream: "fst (copy_writer sz mode fileName contents)
           = ''C'' @ fmt_sharp_o mode @ '' '' @ fmt_d sz @ '' '' @ fileName @ [CHR 0x0A]
                @ concat chunks @ lastb @ [CHR 0x00]"
    using G [THEN conjunct1] io by simp
  have left: "snd (copy_writer sz mode fileName contents) = rest"
    using io by (simp add: copy_writer_def)
  have parse: "sink_parse (fst (copy_writer sz mode fileName contents))
           = Some (mode, sz, fileName, concat chunks @ lastb)"
    using G [THEN conjunct2, THEN conjunct1] io by simp
  have run: "copy env sz mode fileName contents destination sess fl w
           = (case session_Run env sess (copy_cmd fl destination)
                     (fst (copy_writer sz mode fileName contents)) w of
                (err, w1) \<Rightarrow> (err, rest, session_Close env sess w1))"
    using G [THEN conjunct2, THEN conjunct2] io by simp
  show ?thesis
  proof (intro conjI)
    show "copy_writer sz mode fileName contents
           = (''C'' @ fmt_sharp_o mode @ '' '' @ fmt_d sz @ '' '' @ fileName @ [CHR 0x0A]
                @ concat chunks @ lastb @ [CHR 0x00],
              rest)"
      using stream left by (metis prod.collapse)
    show "sink_parse (''C'' @ fmt_sharp_o mode @ '' '' @ fmt_d sz @ '' '' @ fileName @ [CHR 0x0A]
                       @ concat chunks @ lastb @ [CHR 0x00])
           = Some (mode, sz, fileName, concat chunks @ lastb)"
      using parse unfolding stream .
    show "copy env sz mode fileName contents destination sess fl w
           = (case session_Run env sess (''scp '' @ fl @ '' -t '' @ destination)
                     (''C'' @ fmt_sharp_o mode @ '' '' @ fmt_d sz @ '' '' @ fileName @ [CHR 0x0A]
                        @ concat chunks @ lastb @ [CHR 0x00]) w of
                (err, w1) \<Rightarrow> (err, rest, session_Close env sess w1))"
      using run unfolding stream copy_cmd_def .
  qed
qed

theorem copy_writes_protocol_stream_witness:
  "copy_writer 5 420 ''a b.txt'' [(''he'', None), (''llo'', Some io_EOF), (''more'', None)]
     = (''C0644 5 a b.txt'' @ [CHR 0x0A] @ ''hello'' @ [CHR 0x00], [(''more'', None)])
   \<and> sink_parse (''C0644 5 a b.txt'' @ [CHR 0x0A] @ ''hello'' @ [CHR 0x00])
       = Some (420, 5, ''a b.txt'', ''hello'')
   \<and> copy_writer 5 420 ''a b.txt'' [(''he'', None), (''llo'', None)]
     = (''C0644 5 a b.txt'' @ [CHR 0x0A] @ ''hello'' @ [CHR 0x00], [])
   \<and> copy (sim True (\<lambda>c. True)) 5 420 ''a b.txt'' [(''he'', None), (''llo'', None)] ''/tmp''
         (Session 1) [] []
     = (None, [],
        [Ran (Session 1) ''scp  -t /tmp'' (''C0644 5 a b.txt'' @ [CHR 0x0A] @ ''hello'' @ [CHR 0x00]),
         SessionClosed (Session 1)])"
proof -
  have n: "CHR 0x0A \<notin> set ''a b.txt''" by simp
  have a: "[(''he'', None), (''llo'', Some io_EOF), (''more'', None)]
             = map (\<lambda>c. (c, None)) [''he''] @ (''llo'', Some io_EOF) # [(''more'', None)]
           \<or> [(''he'', None), (''llo'', Some io_EOF), (''more'', None)]
               = map (\<lambda>c. (c, None)) [''he''] \<and> ''llo'' = [] \<and> [(''more'', None)] = []"
    by simp
  have b: "[(''he'', None), (''llo'', None)]
             = map (\<lambda>c. (c, None)) [''he'', ''llo''] @ ([], Some io_EOF) # []
           \<or> [(''he'', None), (''llo'', None)]
               = map (\<lambda>c. (c, None)) [''he'', ''llo''] \<and> [] = [] \<and> [] = []"
    by simp
  have la: "(5::int) = int (length (concat [''he''] @ ''llo''))"
    and lb: "(5::int) = int (length (concat [''he'', ''llo''] @ []))"
    by simp_all
  note A = copy_writes_protocol_stream [OF a la n, where mode = 420
      and env = "sim True (\<lambda>c. True)" and destination = "''/tmp''" and sess = "Session 1"
      and fl = "[]" and w = "[]"]
  note B = copy_writes_protocol_stream [OF b lb n, where mode = 420
      and env = "sim True (\<lambda>c. True)" and destination = "''/tmp''" and sess = "Session 1"
      and fl = "[]" and w = "[]"]
  have 1: "copy_writer 5 420 ''a b.txt'' [(''he'', None), (''llo'', Some io_EOF), (''more'', None)]
     = (''C0644 5 a b.txt'' @ [CHR 0x0A] @ ''hello'' @ [CHR 0x00], [(''more'', None)])"
    using A [THEN conjunct1] by (simp add: fmt_small)
  have 2: "sink_parse (''C0644 5 a b.txt'' @ [CHR 0x0A] @ ''hello'' @ [CHR 0x00])
       = Some (420, 5, ''a b.txt'', ''hello'')"
    using A [THEN conjunct2, THEN conjunct1] by (simp add: fmt_small)
  have 3: "copy_writer 5 420 ''a b.txt'' [(''he'', None), (''llo'', None)]
     = (''C0644 5 a b.txt'' @ [CHR 0x0A] @ ''hello'' @ [CHR 0x00], [])"
    using B [THEN conjunct1] by (simp add: fmt_small)
  have 4: "copy (sim True (\<lambda>c. True)) 5 420 ''a b.txt'' [(''he'', None), (''llo'', None)] ''/tmp''
         (Session 1) [] []
     = (None, [],
        [Ran (Session 1) ''scp  -t /tmp'' (''C0644 5 a b.txt'' @ [CHR 0x0A] @ ''hello'' @ [CHR 0x00]),
         SessionClosed (Session 1)])"
    using B [THEN conjunct2, THEN conjunct2] by (simp add: fmt_small sim_def)
  from 1 2 3 4 show ?thesis by blast
qed

section \<open>One transfer attempt\<close>

text \<open>The two loops over a reader, in terms of the calls of \<^verbatim>\<open>Read\<close> they make.\<close>

lemma gzip_loop_Read:
  "gzip_loop env r g cb =
     (case Read r of
        ((b, err), r1) \<Rightarrow>
          if err = Some io_EOF then (Inr (g, cb), r1)
          else (case err of
                  Some e \<Rightarrow> (Inl e, r1)
                | None \<Rightarrow>
                    (case gzip_Write env g b of
                       Inl e \<Rightarrow> (Inl e, r1)
                     | Inr (g1, out) \<Rightarrow> gzip_loop env r1 g1 (cb @ out))))"
  by (cases r) auto

lemma io_Copy_Read:
  "io_Copy r =
     (case Read r of
        ((b, err), r1) \<Rightarrow>
          (case err of
             Some e \<Rightarrow> (b, r1)
           | None \<Rightarrow> (case io_Copy r1 of (bs, r2) \<Rightarrow> (b @ bs, r2))))"
  by (cases r) (auto split: option.splits)

lemma newSession_fields:
  assumes "newSession env s w = (res, s1, w1)"
  shows "flags s1 = flags s" and "gzip s1 = gzip s" and "dialer s1 = dialer s"
  using assms
  by (auto simp: newSession_def split: option.splits prod.splits sum.splits)

lemma Copy_runs:
  assumes "newSession env s w = (Inr sess, s1, w1)"
    and "Copy_prepare env (gzip s) r sz dstfile = (Inr (sz1, name, contents), r1)"
  shows "Copy env s r sz dstfile w
           = (case session_Run env sess (copy_cmd (flags s) (filepath_Dir env dstfile))
                     (fst (copy_writer sz1 ModePerm name contents)) w1 of
                (err, w2) \<Rightarrow>
                  (err, s1, if gzip s then r1 else snd (io_Copy contents),
                   session_Close env sess (session_Close env sess w2)))"
  using assms newSession_fields [OF assms(1)]
  by (simp add: Copy_def copy_def copy_writer_def split: prod.splits)

lemma empty_streams:
  "fst (copy_writer 0 ModePerm ''empty.txt'' []) = ''C0777 0 empty.txt'' @ [CHR 0x0A, CHR 0x00]"
  "fst (copy_writer 0 420 ''empty.txt'' []) = ''C0644 0 empty.txt'' @ [CHR 0x0A, CHR 0x00]"
  by (simp_all add: copy_writer_def fmt_small fmt_d_small)

text \<open>
  Claim C4, as the code has it. Through the helper, with gzip off, a file of no bytes sent
  to a destination whose last element is \<^verbatim>\<open>empty.txt\<close> goes to the input pipe as the
  control line \<^verbatim>\<open>C0777 0 empty.txt\<close>, a newline, and the zero byte right after it: the
  helper always sends the mode \<^verbatim>\<open>os.ModePerm\<close>. The control line \<^verbatim>\<open>C0644 0 empty.txt\<close>
  is what the exported \<^verbatim>\<open>Copy\<close> of \<^verbatim>\<open>scp.go\<close> sends for the mode \<^verbatim>\<open>0644\<close>.
\<close>

theorem Copy_empty_file:
  assumes "newSession env s w = (Inr sess, s1, w1)" and "\<not> gzip s"
    and "filepath_Base dstfile = ''empty.txt''"
  shows "Copy env s [] 0 dstfile w
           = (case session_Run env sess (copy_cmd (flags s) (filepath_Dir env dstfile))
                     (''C0777 0 empty.txt'' @ [CHR 0x0A, CHR 0x00]) w1 of
                (err, w2) \<Rightarrow> (err, s1, [], session_Close env sess (session_Close env sess w2)))
       \<and> scp_Copy env 0 420 ''empty.txt'' [] destination sess w1
           = (case session_Run env sess (copy_cmd [] destination)
                     (''C0644 0 empty.txt'' @ [CHR 0x0A, CHR 0x00]) w1 of
                (err, w2) \<Rightarrow> (err, [], session_Close env sess w2))"
proof
  have "Copy_prepare env (gzip s) [] 0 dstfile = (Inr (0, ''empty.txt'', []), [])"
    using assms(2,3) by (simp add: Copy_prepare_def)
  from Copy_runs [OF assms(1) this] show "Copy env s [] 0 dstfile w
           = (case session_Run env sess (copy_cmd (flags s) (filepath_Dir env dstfile))
                     (''C0777 0 empty.txt'' @ [CHR 0x0A, CHR 0x00]) w1 of
                (err, w2) \<Rightarrow> (err, s1, [], session_Close env sess (session_Close env sess w2)))"
    using assms(2) by (simp only: empty_streams io_Copy.simps snd_conv if_False)
  show "scp_Copy env 0 420 ''empty.txt'' [] destination sess w1
           = (case session_Run env sess (copy_cmd [] destination)
                     (''C0644 0 empty.txt'' @ [CHR 0x0A, CHR 0x00]) w1 of
                (err, w2) \<Rightarrow> (err, [], session_Close env sess w2))"
    by (simp add: scp_Copy_def copy_def copy_writer_def fmt_small fmt_d_small split: prod.splits)
qed

lemma Base_tmp_empty: "filepath_Base ''/tmp/empty.txt'' = ''empty.txt''"
  by (simp add: filepath_Base_def)

lemma sim_Dir_tmp_empty: "sim_Dir ''/tmp/empty.txt'' = ''/tmp''"
  by (simp add: sim_Dir_def)

lemma sim_newSession_fresh:
  "newSession (sim True (\<lambda>c. True)) (NewHelper dialer0) []
     = (Inr (Session 1), (NewHelper dialer0)\<lparr>client := Some (Client 0)\<rparr>,
        [Dialed ''host:22'', SessionOpened (Client 0)])"
  by (simp add: newSession_def NewHelper_def Dial_def dialer0_def sim_def)

lemma sim_fields:
  "session_Run (sim a ok) sess cmd stdin w = (None, w @ [Ran sess cmd stdin])"
  "session_Close (sim a ok) sess w = w @ [SessionClosed sess]"
  "filepath_Dir (sim a ok) = sim_Dir"
  by (simp_all add: sim_def)

lemma sim_prepare_empty:
  "Copy_prepare (sim True (\<lambda>c. True)) (gzip (NewHelper dialer0)) [] 0 ''/tmp/empty.txt''
     = (Inr (0, ''empty.txt'', []), [])"
  by (simp add: Copy_prepare_def NewHelper_def Base_tmp_empty)

text \<open>
  Claim C4 as it is stated fails: in the simulated environment the helper runs the remote
  command with the control line \<^verbatim>\<open>C0777 0 empty.txt\<close>, not \<^verbatim>\<open>C0644 0 empty.txt\<close>.
\<close>

theorem Copy_empty_file_counterexample:
  "Copy (sim True (\<lambda>c. True)) (NewHelper dialer0) [] 0 ''/tmp/empty.txt'' []
     = (None, (NewHelper dialer0)\<lparr>client := Some (Client 0)\<rparr>, [],
        [Dialed ''host:22'', SessionOpened (Client 0),
         Ran (Session 1) ''scp  -t /tmp'' (''C0777 0 empty.txt'' @ [CHR 0x0A, CHR 0x00]),
         SessionClosed (Session 1), SessionClosed (Session 1)])
   \<and> ''C0777 0 empty.txt'' @ [CHR 0x0A, CHR 0x00] \<noteq> ''C0644 0 empty.txt'' @ [CHR 0x0A, CHR 0x00]"
proof
  have f: "flags (NewHelper dialer0) = []" and g: "\<not> gzip (NewHelper dialer0)"
    by (simp_all add: NewHelper_def)
  show "Copy (sim True (\<lambda>c. True)) (NewHelper dialer0) [] 0 ''/tmp/empty.txt'' []
     = (None, (NewHelper dialer0)\<lparr>client := Some (Client 0)\<rparr>, [],
        [Dialed ''host:22'', SessionOpened (Client 0),
         Ran (Session 1) ''scp  -t /tmp'' (''C0777 0 empty.txt'' @ [CHR 0x0A, CHR 0x00]),
         SessionClosed (Session 1), SessionClosed (Session 1)])"
    unfolding Copy_runs [OF sim_newSession_fresh sim_prepare_empty]
    by (simp add: sim_fields sim_Dir_tmp_empty empty_streams copy_cmd_def f g)
  show "''C0777 0 empty.txt'' @ [CHR 0x0A, CHR 0x00] \<noteq> ''C0644 0 empty.txt'' @ [CHR 0x0A, CHR 0x00]"
    by simp
qed

theorem Copy_empty_file_witness:
  "Copy (sim True (\<lambda>c. True)) (NewHelper dialer0) [] 0 ''/tmp/empty.txt'' []
     = (None, (NewHelper dialer0)\<lparr>client := Some (Client 0)\<rparr>, [],
        [Dialed ''host:22'', SessionOpened (Client 0),
         Ran (Session 1) ''scp  -t /tmp'' (''C0777 0 empty.txt'' @ [CHR 0x0A, CHR 0x00]),
         SessionClosed (Session 1), SessionClosed (Session 1)])
   \<and> scp_Copy (sim True (\<lambda>c. True)) 0 420 ''empty.txt'' [] ''/tmp'' (Session 1)
         [Dialed ''host:22'', SessionOpened (Client 0)]
     = (None, [],
        [Dialed ''host:22'', SessionOpened (Client 0),
         Ran (Session 1) ''scp  -t /tmp'' (''C0644 0 empty.txt'' @ [CHR 0x0A, CHR 0x00]),
         SessionClosed (Session 1)])"
proof -
  have f: "flags (NewHelper dialer0) = []" and g: "\<not> gzip (NewHelper dialer0)"
    by (simp_all add: NewHelper_def)
  note T = Copy_empty_file [OF sim_newSession_fresh g Base_tmp_empty, where destination = "''/tmp''"]
  then show ?thesis
    by (simp add: sim_fields sim_Dir_tmp_empty copy_cmd_def f)
qed

section \<open>Configuration\<close>

text \<open>
  Claim C8. \<^verbatim>\<open>SetLimitKB(100)\<close> sets the flags to \<^verbatim>\<open>-l 800\<close>; \<^verbatim>\<open>SetLimitKB(k)\<close> sets them
  to \<^verbatim>\<open>-l\<close>, a space and the product \<^verbatim>\<open>k*8\<close> of Go in decimal, which is \<open>k * 8\<close> as long
  as it does not overflow; a new helper has no flags; the command is \<^verbatim>\<open>scp\<close>, a space, the
  flags, \<^verbatim>\<open> -t \<close> and the destination directory, and \<^verbatim>\<open>Copy\<close> runs it with the helper's flags
  and the directory of the destination file.
\<close>

theorem SetLimitKB_flags:
  "flags (SetLimitKB s 100) = ''-l 800''
   \<and> flags (SetLimitKB s k) = ''-l '' @ fmt_d (wrap64 (k * 8))
   \<and> (- (2 ^ 60) \<le> k \<and> k < 2 ^ 60 \<longrightarrow> flags (SetLimitKB s k) = ''-l '' @ fmt_d (k * 8))
   \<and> flags (NewHelper d) = []
   \<and> copy_cmd fl destination = ''scp '' @ fl @ '' -t '' @ destination
   \<and> (newSession env s w = (Inr sess, s1, w1)
        \<and> Copy_prepare env (gzip s) r sz dstfile = (Inr (sz1, name, contents), r1) \<longrightarrow>
        fst (Copy env s r sz dstfile w)
          = fst (session_Run env sess (''scp '' @ flags s @ '' -t '' @ filepath_Dir env dstfile)
                   (fst (copy_writer sz1 ModePerm name contents)) w1))"
proof (intro conjI impI)
  show "flags (SetLimitKB s 100) = ''-l 800''"
    by (simp add: SetLimitKB_def wrap64_def fmt_small)
  show "flags (SetLimitKB s k) = ''-l '' @ fmt_d (wrap64 (k * 8))"
    by (simp add: SetLimitKB_def)
  show "flags (NewHelper d) = []"
    by (simp add: NewHelper_def)
  show "copy_cmd fl destination = ''scp '' @ fl @ '' -t '' @ destination"
    by (simp add: copy_cmd_def)
next
  assume "- (2 ^ 60) \<le> k \<and> k < 2 ^ 60"
  then have "wrap64 (k * 8) = k * 8"
    by (intro wrap64_id) simp_all
  then show "flags (SetLimitKB s k) = ''-l '' @ fmt_d (k * 8)"
    by (simp add: SetLimitKB_def)
next
  assume a: "newSession env s w = (Inr sess, s1, w1)
        \<and> Copy_prepare env (gzip s) r sz dstfile = (Inr (sz1, name, contents), r1)"
  show "fst (Copy env s r sz dstfile w)
          = fst (session_Run env sess (''scp '' @ flags s @ '' -t '' @ filepath_Dir env dstfile)
                   (fst (copy_writer sz1 ModePerm name contents)) w1)"
    unfolding Copy_runs [OF conjunct1 [OF a] conjunct2 [OF a]]
    by (simp add: copy_cmd_def split: prod.splits)
qed

lemma sim_newSession_limited:
  "newSession (sim True (\<lambda>c. True)) (SetLimitKB (NewHelper dialer0) 100) []
     = (Inr (Session 1), (SetLimitKB (NewHelper dialer0) 100)\<lparr>client := Some (Client 0)\<rparr>,
        [Dialed ''host:22'', SessionOpened (Client 0)])"
  by (simp add: newSession_def NewHelper_def SetLimitKB_def Dial_def dialer0_def sim_def)

lemma sim_prepare_limited:
  "Copy_prepare (sim True (\<lambda>c. True)) (gzip (SetLimitKB (NewHelper dialer0) 100)) [] 0
     ''/tmp/empty.txt'' = (Inr (0, ''empty.txt'', []), [])"
  by (simp add: Copy_prepare_def NewHelper_def SetLimitKB_def Base_tmp_empty)

theorem SetLimitKB_flags_witness:
  "flags (SetLimitKB (NewHelper dialer0) 25) = ''-l 200''
   \<and> fst (Copy (sim True (\<lambda>c. True)) (SetLimitKB (NewHelper dialer0) 100) [] 0
            ''/tmp/empty.txt'' [])
       = fst (session_Run (sim True (\<lambda>c. True)) (Session 1) ''scp -l 800 -t /tmp''
                (''C0777 0 empty.txt'' @ [CHR 0x0A, CHR 0x00])
                [Dialed ''host:22'', SessionOpened (Client 0)])"
proof -
  have r: "- (2 ^ 60) \<le> (25::int) \<and> (25::int) < 2 ^ 60" by simp
  have d: "fmt_d 200 = ''200''"
    by (simp add: fmt_d_def digits.simps digit_char_def)
  note T = SetLimitKB_flags [where k = 25 and s = "NewHelper dialer0",
      THEN conjunct2, THEN conjunct2, THEN conjunct1, THEN mp, OF r]
  note U = SetLimitKB_flags [where s = "SetLimitKB (NewHelper dialer0) 100"
      and env = "sim True (\<lambda>c. True)" and w = "[]" and r = "[]" and sz = 0
      and dstfile = "''/tmp/empty.txt''",
      THEN conjunct2, THEN conjunct2, THEN conjunct2, THEN conjunct2, THEN conjunct2, THEN mp,
      OF conjI [OF sim_newSession_limited sim_prepare_limited]]
  have f: "flags (SetLimitKB (NewHelper dialer0) 100) = ''-l 800''"
    by (simp add: SetLimitKB_def wrap64_def fmt_small)
  have "flags (SetLimitKB (NewHelper dialer0) 25) = ''-l 200''"
    using T d by simp
  moreover have "fst (Copy (sim True (\<lambda>c. True)) (SetLimitKB (NewHelper dialer0) 100) [] 0
            ''/tmp/empty.txt'' [])
       = fst (session_Run (sim True (\<lambda>c. True)) (Session 1) ''scp -l 800 -t /tmp''
                (''C0777 0 empty.txt'' @ [CHR 0x0A, CHR 0x00])
                [Dialed ''host:22'', SessionOpened (Client 0)])"
    using U by (simp add: sim_fields sim_Dir_tmp_empty empty_streams f)
  ultimately show ?thesis by simp
qed

section \<open>Copying a file by its path\<close>

text \<open>
  Claim C9. When the source file cannot be opened, or is opened and cannot be examined,
  \<^verbatim>\<open>MustCopyPath\<close> panics with the error, without an attempt; \<^verbatim>\<open>CopyPath\<close> and
  \<^verbatim>\<open>TryCopyPath\<close> return the error, without an attempt either.
\<close>

theorem MustCopyPath_panics:
  assumes "os_Open env srcfile w = (Inl e, w1)
           \<or> (\<exists>fd w0. os_Open env srcfile w = (Inr fd, w0) \<and> file_Stat env fd w0 = (Inl e, w1))"
  shows "MustCopyPath env s srcfile dstfile w = Some (Panic e, s, w1)
       \<and> CopyPath env s srcfile dstfile w = (Some e, s, w1)
       \<and> TryCopyPath env s srcfile dstfile trys w = Some (Some e, [], s, w1)"
proof -
  from assms have "openFile env srcfile w = (Inl e, w1)"
    by (auto simp: openFile_def)
  then show ?thesis
    by (simp add: MustCopyPath_def CopyPath_def TryCopyPath_def)
qed

theorem MustCopyPath_panics_witness:
  "MustCopyPath (sim True (\<lambda>c. True)) (NewHelper dialer0) ''/no/such'' ''/tmp/empty.txt'' []
     = Some (Panic (Err ''no such file''), NewHelper dialer0, [])
   \<and> CopyPath (sim True (\<lambda>c. True)) (NewHelper dialer0) ''/no/such'' ''/tmp/empty.txt'' []
     = (Some (Err ''no such file''), NewHelper dialer0, [])
   \<and> TryCopyPath (sim True (\<lambda>c. True)) (NewHelper dialer0) ''/no/such'' ''/tmp/empty.txt'' 3 []
     = Some (Some (Err ''no such file''), [], NewHelper dialer0, [])
   \<and> MustCopyPath (sim_unreadable (sim True (\<lambda>c. True))) (NewHelper dialer0) ''/dev/x''
       ''/tmp/empty.txt'' []
     = Some (Panic (Err ''bad file descriptor''), NewHelper dialer0, [])"
proof -
  have a: "os_Open (sim True (\<lambda>c. True)) ''/no/such'' [] = (Inl (Err ''no such file''), [])
           \<or> (\<exists>fd w0. os_Open (sim True (\<lambda>c. True)) ''/no/such'' [] = (Inr fd, w0)
                \<and> file_Stat (sim True (\<lambda>c. True)) fd w0 = (Inl (Err ''no such file''), []))"
    by (simp add: sim_def)
  have b: "os_Open (sim_unreadable (sim True (\<lambda>c. True))) ''/dev/x'' []
             = (Inl (Err ''bad file descriptor''), [])
           \<or> (\<exists>fd w0. os_Open (sim_unreadable (sim True (\<lambda>c. True))) ''/dev/x'' [] = (Inr fd, w0)
                \<and> file_Stat (sim_unreadable (sim True (\<lambda>c. True))) fd w0
                    = (Inl (Err ''bad file descriptor''), []))"
    by (simp add: sim_def sim_unreadable_def)
  show ?thesis
    using MustCopyPath_panics [OF a, of "NewHelper dialer0" "''/tmp/empty.txt''" 3]
      MustCopyPath_panics [OF b, of "NewHelper dialer0" "''/tmp/empty.txt''" 3]
    by simp
qed

section \<open>The gzip step\<close>

text \<open>
  Claim C3, evaluated on the code. A reader may return its last bytes together with
  \<^verbatim>\<open>io.EOF\<close>. When the reader of a three-byte source does so, nothing is written to the
  gzip writer: whatever the codec, the payload is what flushing a new writer gives, the
  same payload and size as for a source with no bytes, so that no decompression gives the
  source back. The name does get the suffix \<^verbatim>\<open>.gz\<close> and the size is the length of the
  payload.
\<close>

theorem Copy_gzip_drops_last_read:
  "gzip (SetGzipEnable s True)
   \<and> Read [(''abc'', Some io_EOF)] = ((''abc'', Some io_EOF), [])
   \<and> Copy_prepare env True [(''abc'', Some io_EOF)] 3 dstfile
     = (Inr (int (length (snd (gzip_Flush env (gzip_NewWriter env)))),
             filepath_Base dstfile @ ''.gz'',
             Buffer_reader (snd (gzip_Flush env (gzip_NewWriter env)))), [])
   \<and> Copy_prepare env True [(''abc'', Some io_EOF)] 3 dstfile = Copy_prepare env True [] 0 dstfile"
  by (simp add: Copy_prepare_def SetGzipEnable_def split: prod.splits)

end
